theory Spec2Isabelle
  imports Main "HOL-Library.Word" "HOL-Library.Sublist" "HOL-Library.AList"
    "HOL-Library.Product_Lexorder"
begin

section \<open>Python strings and byte strings\<close>

text \<open>
  A Python \<^verbatim>\<open>str\<close> is modelled as a \<open>string\<close> (ASCII text, one \<open>char\<close> per
  character) and a Python \<^verbatim>\<open>bytes\<close> object as a list of 8-bit words.
\<close>

type_synonym byte = "8 word"

text \<open>\<^verbatim>\<open>needle in haystack\<close> on strings and on byte strings: a contiguous occurrence.\<close>

fun py_in :: "'a list \<Rightarrow> 'a list \<Rightarrow> bool" where
  "py_in needle [] = (needle = [])"
| "py_in needle (h # hs) = (prefix needle (h # hs) \<or> py_in needle hs)"

text \<open>\<^verbatim>\<open>s.endswith(suffix)\<close>.\<close>

definition endswith :: "'a list \<Rightarrow> 'a list \<Rightarrow> bool" where
  "endswith s suff = suffix suff s"

text \<open>\<^verbatim>\<open>str.lower()\<close> on ASCII text.\<close>

definition lower_char :: "char \<Rightarrow> char" where
  "lower_char c =
     (let n = (of_char c :: nat) in if 65 \<le> n \<and> n \<le> 90 then char_of (n + 32) else c)"

definition lower :: "string \<Rightarrow> string" where
  "lower s = map lower_char s"

text \<open>\<^verbatim>\<open>sep.join(parts)\<close>.\<close>

fun join :: "string \<Rightarrow> string list \<Rightarrow> string" where
  "join sep [] = []"
| "join sep [p] = p"
| "join sep (p # q # ps) = p @ sep @ join sep (q # ps)"

text \<open>
  \<^verbatim>\<open>s.replace(old, '')\<close> for a non-empty \<open>old\<close>: every occurrence found by a scan from
  the left is dropped, and the scan goes on behind it.
\<close>

fun remove_all :: "nat \<Rightarrow> string \<Rightarrow> string \<Rightarrow> string" where
  "remove_all skip old [] = []"
| "remove_all (Suc k) old (c # cs) = remove_all k old cs"
| "remove_all 0 old (c # cs) =
     (if prefix old (c # cs) \<and> old \<noteq> [] then remove_all (length old - 1) old cs
      else c # remove_all 0 old cs)"

text \<open>\<^verbatim>\<open>s.encode()\<close>: the bytes of an ASCII string.\<close>

definition encode :: "string \<Rightarrow> byte list" where
  "encode s = map of_char s"

text \<open>\<^verbatim>\<open>s.isdigit()\<close> and \<^verbatim>\<open>int(s)\<close> on ASCII decimal digits.\<close>

definition isdigit :: "string \<Rightarrow> bool" where
  "isdigit s = (s \<noteq> [] \<and> list_all (\<lambda>c. 48 \<le> (of_char c :: nat) \<and> (of_char c :: nat) \<le> 57) s)"

definition int_of_digits :: "string \<Rightarrow> int" where
  "int_of_digits s = foldl (\<lambda>acc c. 10 * acc + (int (of_char c) - 48)) 0 s"

subsection \<open>Paths\<close>

text \<open>\<^verbatim>\<open>os.path.join(a, b)\<close> of posixpath: an absolute \<open>b\<close> replaces \<open>a\<close>.\<close>

definition path_join :: "string \<Rightarrow> string \<Rightarrow> string" where
  "path_join a b =
     (if prefix ''/'' b then b
      else if a = [] \<or> endswith a ''/'' then a @ b
      else a @ ''/'' @ b)"

text \<open>
  \<^verbatim>\<open>os.path.splitext(p)[1]\<close>: the extension starts at the last dot of the last path
  component, unless only dots come before it in that component.
\<close>

definition basename :: "string \<Rightarrow> string" where
  "basename p = rev (takeWhile (\<lambda>c. c \<noteq> CHR ''/'') (rev p))"

definition splitext_ext :: "string \<Rightarrow> string" where
  "splitext_ext p =
     (let b = basename p;
          after = takeWhile (\<lambda>c. c \<noteq> CHR ''.'') (rev b);
          stem = rev (drop (length after + 1) (rev b))
      in if CHR ''.'' \<in> set b \<and> list_ex (\<lambda>c. c \<noteq> CHR ''.'') stem
         then CHR ''.'' # rev after else [])"

subsection \<open>Errors and library functions\<close>

text \<open>The exceptions the modelled code can raise, each with the text \<^verbatim>\<open>str(e)\<close> gives.\<close>

datatype py_error = KeyError string | AttributeError string | OtherError string

fun error_str :: "py_error \<Rightarrow> string" where
  "error_str (KeyError k) = [CHR 0x27] @ k @ [CHR 0x27]"
| "error_str (AttributeError m) = m"
| "error_str (OtherError m) = m"

text \<open>
  A value that \<^verbatim>\<open>json.loads\<close> returns: \<^verbatim>\<open>None\<close>, a boolean, a number, a string, a
  list or a dictionary. A float is kept as the text of its literal.
\<close>

datatype json =
    JNull
  | JBool bool
  | JInt int
  | JFloat string
  | JString string
  | JArray "json list"
  | JObject "(string \<times> json) list"

text \<open>A dictionary with string keys, and \<^verbatim>\<open>d.get(key, default)\<close>.\<close>

type_synonym py_dict = "string \<rightharpoonup> json"

definition dict_get :: "py_dict \<Rightarrow> string \<Rightarrow> json \<Rightarrow> json" where
  "dict_get d key dflt = (case d key of None \<Rightarrow> dflt | Some v \<Rightarrow> v)"

text \<open>
  Functions of libraries outside the repository, taken as parameters:
  \<^verbatim>\<open>hashlib.md5(b).hexdigest()\<close>, \<^verbatim>\<open>hashlib.sha256(b).hexdigest()\<close>,
  werkzeug's \<^verbatim>\<open>secure_filename\<close>, \<^verbatim>\<open>urllib.parse.urljoin\<close>, the groups of
  the matches of the regular expression \<^verbatim>\<open>bin_pattern\<close> in a directory listing,
  Python's \<^verbatim>\<open>str\<close> of a value that is not a string, \<^verbatim>\<open>json.dumps\<close>, whether
  the sqlite3 module binds a boolean, a number or a string as a parameter (it raises for an
  integer beyond 64 bits), and what SQLite stores when a boolean or a number is written to
  a column of type TEXT: its text, or \<^verbatim>\<open>NULL\<close> for a float that is not a number.
\<close>

record externals =
  md5_hexdigest :: "byte list \<Rightarrow> string"
  sha256_hexdigest :: "byte list \<Rightarrow> string"
  secure_filename :: "string \<Rightarrow> string"
  urljoin :: "string \<Rightarrow> string \<Rightarrow> string"
  bin_pattern_finditer :: "string \<Rightarrow> (string \<times> string \<times> string) list"
  py_str :: "json \<Rightarrow> string"
  json_dumps :: "json \<Rightarrow> string"
  sqlite_adapts :: "json \<Rightarrow> bool"
  sqlite_text :: "json \<Rightarrow> string option"

text \<open>A value formatted into an f-string.\<close>

definition format_value :: "externals \<Rightarrow> json \<Rightarrow> string" where
  "format_value ext v = (case v of JString s \<Rightarrow> s | _ \<Rightarrow> py_str ext v)"

subsection \<open>The disk\<close>

text \<open>
  The files on disk: paths with their contents. Directories are not modelled; a path is in
  a directory when it starts with the directory's name and a slash.
\<close>

type_synonym disk = "(string \<times> byte list) list"

definition path_exists :: "disk \<Rightarrow> string \<Rightarrow> bool" where
  "path_exists d p = (map_of d p \<noteq> None)"

definition remove_file :: "disk \<Rightarrow> string \<Rightarrow> disk" where
  "remove_file d p = filter (\<lambda>f. fst f \<noteq> p) d"

definition write_file :: "disk \<Rightarrow> string \<Rightarrow> byte list \<Rightarrow> disk" where
  "write_file d p content = (p, content) # remove_file d p"

text \<open>\<^verbatim>\<open>shutil.move(src, dst)\<close> of an existing file onto a file path.\<close>

definition move_file :: "disk \<Rightarrow> string \<Rightarrow> string \<Rightarrow> disk" where
  "move_file d src dst =
     (case map_of d src of
        None \<Rightarrow> d
      | Some content \<Rightarrow> if src = dst then d else write_file (remove_file d src) dst content)"

definition in_dir :: "string \<Rightarrow> string \<Rightarrow> bool" where
  "in_dir dir p = prefix (dir @ ''/'') p"

section \<open>The firmware catalog (firmware\_manager.py)\<close>

text \<open>
  A row of the table \<^verbatim>\<open>firmware\<close>; \<open>fw_id\<close> is the primary key. The columns with
  defaults that no modelled statement writes (\<^verbatim>\<open>download_count\<close>, \<^verbatim>\<open>rating\<close>,
  \<^verbatim>\<open>created_at\<close>, \<^verbatim>\<open>updated_at\<close>) are left out; the two list columns hold the
  lists whose JSON text the code stores.
\<close>

record firmware =
  fw_id :: string
  fw_name :: string
  fw_version :: string
  fw_chip_type :: string
  fw_variant :: string
  fw_channel :: string
  fw_source :: string
  fw_download_url :: string
  fw_local_path :: "string option"
  fw_size :: int
  fw_md5_hash :: "string option"
  fw_sha256_hash :: "string option"
  fw_published_at :: string
  fw_changelog :: string
  fw_features :: "string list"
  fw_compatibility :: "string list"
  fw_verified :: bool
  fw_status :: string

text \<open>An entry of \<^verbatim>\<open>self.sources\<close>; only the directory sources have a chip type.\<close>

record source_config =
  src_url :: string
  src_type :: string
  src_channel :: string
  src_chip_type :: "string option"

definition sources :: "(string \<times> source_config) list" where
  "sources =
    [(''github_releases'',
        \<lparr>src_url = ''https://api.github.com/repos/arendst/Tasmota/releases'',
         src_type = ''github_api'', src_channel = ''stable'', src_chip_type = None\<rparr>),
     (''github_artifacts'',
        \<lparr>src_url = ''https://api.github.com/repos/arendst/Tasmota/actions/artifacts'',
         src_type = ''github_api'', src_channel = ''development'', src_chip_type = None\<rparr>),
     (''ota_esp8266'',
        \<lparr>src_url = ''http://ota.tasmota.com/tasmota/release/'',
         src_type = ''ota_server'', src_channel = ''stable'', src_chip_type = Some ''ESP8266''\<rparr>),
     (''ota_esp32'',
        \<lparr>src_url = ''http://ota.tasmota.com/tasmota32/release/'',
         src_type = ''ota_server'', src_channel = ''stable'', src_chip_type = Some ''ESP32''\<rparr>),
     (''ota_esp8266_dev'',
        \<lparr>src_url = ''http://ota.tasmota.com/tasmota/'',
         src_type = ''ota_server'', src_channel = ''development'', src_chip_type = Some ''ESP8266''\<rparr>),
     (''ota_esp32_dev'',
        \<lparr>src_url = ''http://ota.tasmota.com/tasmota32/'',
         src_type = ''ota_server'', src_channel = ''development'', src_chip_type = Some ''ESP32''\<rparr>)]"

text \<open>
  The JSON of a release listing: a key the code reads with \<^verbatim>\<open>d[key]\<close> may be missing
  (\<open>None\<close>), which raises \<^verbatim>\<open>KeyError\<close>; \<^verbatim>\<open>draft\<close>, \<^verbatim>\<open>prerelease\<close>,
  \<^verbatim>\<open>body\<close> and \<^verbatim>\<open>assets\<close> are read with \<^verbatim>\<open>get\<close> and hold the value read.
\<close>

record asset =
  asset_name :: "string option"
  asset_browser_download_url :: "string option"
  asset_size :: "int option"

record release =
  rel_draft :: bool
  rel_prerelease :: bool
  rel_tag_name :: "string option"
  rel_published_at :: "string option"
  rel_body :: string
  rel_assets :: "asset list"

text \<open>
  The outcome of one HTTP request: the request or the decoding of its body raises, or there
  is a status code and a decoded body.
\<close>

datatype 'a http_reply = RequestFailed string | Reply nat 'a

record environment =
  github_get :: "string \<Rightarrow> release list http_reply"
  ota_get :: "string \<Rightarrow> string http_reply"
  now_isoformat :: string

text \<open>The dictionary a poller builds for a firmware it has not seen.\<close>

record firmware_update =
  up_id :: string
  up_name :: string
  up_version :: string
  up_chip_type :: string
  up_variant :: string
  up_channel :: string
  up_source :: string
  up_download_url :: string
  up_size :: int
  up_published_at :: string
  up_changelog :: "string option"
  up_features :: "string list"
  up_compatibility :: "string list"

record firmware_info =
  info_chip_type :: string
  info_variant :: string
  info_features :: "string list"
  info_compatibility :: "string list"

definition parse_firmware_filename :: "string \<Rightarrow> firmware_info" where
  "parse_firmware_filename filename =
     (let name = lower (remove_all 0 ''.bin'' filename);
          chip_type =
            (if py_in ''tasmota32'' name \<or> py_in ''esp32'' name then ''ESP32''
             else if py_in ''tasmota-esp32'' name then ''ESP32''
             else ''ESP8266'');
          (variant, features) =
            (if py_in ''minimal'' name then (''minimal'', [''OTA'', ''Basic GPIO''])
             else if py_in ''lite'' name then (''lite'', [''MQTT'', ''WiFi'', ''Basic Controls''])
             else if py_in ''sensors'' name then
               (''sensors'', [''All Sensors'', ''DHT22'', ''DS18B20'', ''BMP280''])
             else if py_in ''display'' name then
               (''display'', [''Display Support'', ''SSD1306'', ''ILI9341''])
             else if py_in ''ir'' name then
               (''ir'', [''IR Transmit'', ''IR Receive'', ''HVAC Control''])
             else if py_in ''zigbee'' name then
               (''zigbee'', [''Zigbee Bridge'', ''CC2530'', ''Coordinator''])
             else if py_in ''knx'' name then (''knx'', [''KNX Protocol'', ''Building Automation''])
             else (''standard'', []));
          (variant', compatibility) =
            (if py_in ''-de'' name then (variant @ ''-de'', [''German''])
             else if py_in ''-cn'' name then (variant @ ''-cn'', [''Chinese''])
             else (variant, []))
      in \<lparr>info_chip_type = chip_type, info_variant = variant',
          info_features = features, info_compatibility = compatibility\<rparr>)"

definition generate_firmware_id :: "externals \<Rightarrow> string \<Rightarrow> string \<Rightarrow> string \<Rightarrow> string" where
  "generate_firmware_id ext name version channel =
     md5_hexdigest ext (encode (name @ ''_'' @ version @ ''_'' @ channel))"

definition firmware_exists :: "firmware list \<Rightarrow> string \<Rightarrow> bool" where
  "firmware_exists catalog firmware_id = list_ex (\<lambda>row. fw_id row = firmware_id) catalog"

text \<open>
  The inner loop of \<^verbatim>\<open>_process_github_releases\<close> over the assets of one release. A
  \<^verbatim>\<open>KeyError\<close> leaves the function, whatever has been collected.
\<close>

fun process_assets ::
  "externals \<Rightarrow> firmware list \<Rightarrow> source_config \<Rightarrow> string \<Rightarrow> string \<Rightarrow> string \<Rightarrow> asset list
     \<Rightarrow> py_error + firmware_update list" where
  "process_assets ext catalog config version published_at changelog [] = Inr []"
| "process_assets ext catalog config version published_at changelog (a # as) =
     (case asset_name a of
        None \<Rightarrow> Inl (KeyError ''name'')
      | Some name \<Rightarrow>
          if endswith name ''.bin'' then
            (let firmware_info = parse_firmware_filename name;
                 firmware_id = generate_firmware_id ext name version (src_channel config)
             in if \<not> firmware_exists catalog firmware_id then
                  (case asset_browser_download_url a of
                     None \<Rightarrow> Inl (KeyError ''browser_download_url'')
                   | Some url \<Rightarrow>
                       (case asset_size a of
                          None \<Rightarrow> Inl (KeyError ''size'')
                        | Some asset_sz \<Rightarrow>
                            (case process_assets ext catalog config version published_at changelog as of
                               Inl e \<Rightarrow> Inl e
                             | Inr updates \<Rightarrow>
                                 Inr (\<lparr>up_id = firmware_id, up_name = name, up_version = version,
                                       up_chip_type = info_chip_type firmware_info,
                                       up_variant = info_variant firmware_info,
                                       up_channel = src_channel config,
                                       up_source = ''github_releases'',
                                       up_download_url = url, up_size = asset_sz,
                                       up_published_at = published_at,
                                       up_changelog = Some changelog,
                                       up_features = info_features firmware_info,
                                       up_compatibility = info_compatibility firmware_info\<rparr>
                                      # updates))))
                else process_assets ext catalog config version published_at changelog as)
          else process_assets ext catalog config version published_at changelog as)"

fun process_releases ::
  "externals \<Rightarrow> firmware list \<Rightarrow> source_config \<Rightarrow> release list \<Rightarrow> py_error + firmware_update list" where
  "process_releases ext catalog config [] = Inr []"
| "process_releases ext catalog config (r # rs) =
     (if rel_draft r \<or> rel_prerelease r then process_releases ext catalog config rs
      else
        (case rel_tag_name r of
           None \<Rightarrow> Inl (KeyError ''tag_name'')
         | Some version \<Rightarrow>
             (case rel_published_at r of
                None \<Rightarrow> Inl (KeyError ''published_at'')
              | Some published_at \<Rightarrow>
                  (case process_assets ext catalog config version published_at (rel_body r)
                          (rel_assets r) of
                     Inl e \<Rightarrow> Inl e
                   | Inr updates \<Rightarrow>
                       (case process_releases ext catalog config rs of
                          Inl e \<Rightarrow> Inl e
                        | Inr rest \<Rightarrow> Inr (updates @ rest))))))"

definition process_github_releases ::
  "externals \<Rightarrow> firmware list \<Rightarrow> release list \<Rightarrow> source_config \<Rightarrow> py_error + firmware_update list" where
  "process_github_releases ext catalog releases config =
     process_releases ext catalog config (take 10 releases)"

text \<open>
  \<^verbatim>\<open>_check_github_source\<close>. Everything it does is inside one \<^verbatim>\<open>try\<close>, whose
  \<^verbatim>\<open>except\<close> logs and lets the empty list be returned. The class has no method
  \<^verbatim>\<open>_process_github_artifacts\<close>, so that branch raises \<^verbatim>\<open>AttributeError\<close>.
\<close>

definition check_github_source ::
  "externals \<Rightarrow> environment \<Rightarrow> firmware list \<Rightarrow> string \<Rightarrow> source_config \<Rightarrow> firmware_update list" where
  "check_github_source ext env catalog source_name config =
     (case github_get env (src_url config) of
        RequestFailed e \<Rightarrow> []
      | Reply status data \<Rightarrow>
          if status = 200 then
            (if py_in ''releases'' (src_url config) then
               (case process_github_releases ext catalog data config of
                  Inl e \<Rightarrow> []
                | Inr updates \<Rightarrow> updates)
             else [])
          else [])"

text \<open>\<^verbatim>\<open>_parse_ota_directory\<close>: name, display name, URL and size of every match.\<close>

record ota_file =
  ota_name :: string
  ota_display_name :: string
  ota_url :: string
  ota_size :: int

definition parse_ota_directory :: "externals \<Rightarrow> string \<Rightarrow> string \<Rightarrow> ota_file list" where
  "parse_ota_directory ext html_content base_url =
     map (\<lambda>(filename, display_name, digits).
            \<lparr>ota_name = filename, ota_display_name = display_name,
             ota_url = urljoin ext base_url filename,
             ota_size = (if isdigit digits then int_of_digits digits else 0)\<rparr>)
         (bin_pattern_finditer ext html_content)"

fun process_ota_files ::
  "externals \<Rightarrow> environment \<Rightarrow> firmware list \<Rightarrow> string \<Rightarrow> source_config \<Rightarrow> ota_file list
     \<Rightarrow> py_error + firmware_update list" where
  "process_ota_files ext env catalog source_name config [] = Inr []"
| "process_ota_files ext env catalog source_name config (f # fs) =
     (let firmware_info = parse_firmware_filename (ota_name f) in
      case src_chip_type config of
        None \<Rightarrow> Inl (KeyError ''chip_type'')
      | Some chip_type \<Rightarrow>
          if info_chip_type firmware_info = chip_type then
            (let firmware_id = generate_firmware_id ext (ota_name f) ''latest'' (src_channel config)
             in if \<not> firmware_exists catalog firmware_id then
                  (case process_ota_files ext env catalog source_name config fs of
                     Inl e \<Rightarrow> Inl e
                   | Inr updates \<Rightarrow>
                       Inr (\<lparr>up_id = firmware_id, up_name = ota_name f, up_version = ''latest'',
                             up_chip_type = info_chip_type firmware_info,
                             up_variant = info_variant firmware_info,
                             up_channel = src_channel config,
                             up_source = source_name,
                             up_download_url = ota_url f, up_size = ota_size f,
                             up_published_at = now_isoformat env,
                             up_changelog = None,
                             up_features = info_features firmware_info,
                             up_compatibility = info_compatibility firmware_info\<rparr>
                            # updates))
                else process_ota_files ext env catalog source_name config fs)
          else process_ota_files ext env catalog source_name config fs)"

definition check_ota_source ::
  "externals \<Rightarrow> environment \<Rightarrow> firmware list \<Rightarrow> string \<Rightarrow> source_config \<Rightarrow> firmware_update list" where
  "check_ota_source ext env catalog source_name config =
     (case ota_get env (src_url config) of
        RequestFailed e \<Rightarrow> []
      | Reply status html_content \<Rightarrow>
          if status = 200 then
            (case process_ota_files ext env catalog source_name config
                    (parse_ota_directory ext html_content (src_url config)) of
               Inl e \<Rightarrow> []
             | Inr updates \<Rightarrow> updates)
          else [])"

text \<open>
  \<^verbatim>\<open>save_firmware_updates\<close>: one \<^verbatim>\<open>INSERT OR REPLACE\<close> per update; a row with the
  same id is deleted and the new row is added.
\<close>

definition firmware_row :: "firmware_update \<Rightarrow> firmware" where
  "firmware_row update =
     \<lparr>fw_id = up_id update, fw_name = up_name update, fw_version = up_version update,
      fw_chip_type = up_chip_type update, fw_variant = up_variant update,
      fw_channel = up_channel update, fw_source = up_source update,
      fw_download_url = up_download_url update, fw_local_path = None,
      fw_size = up_size update, fw_md5_hash = None, fw_sha256_hash = None,
      fw_published_at = up_published_at update,
      fw_changelog = (case up_changelog update of None \<Rightarrow> [] | Some c \<Rightarrow> c),
      fw_features = up_features update, fw_compatibility = up_compatibility update,
      fw_verified = (up_source update = ''github_releases''),
      fw_status = ''available''\<rparr>"

definition insert_or_replace :: "firmware list \<Rightarrow> firmware \<Rightarrow> firmware list" where
  "insert_or_replace catalog row = filter (\<lambda>r. fw_id r \<noteq> fw_id row) catalog @ [row]"

definition save_firmware_updates :: "firmware list \<Rightarrow> firmware_update list \<Rightarrow> firmware list" where
  "save_firmware_updates catalog updates = foldl insert_or_replace catalog (map firmware_row updates)"

subsection \<open>The aggregated update check\<close>

record source_result =
  sr_updates :: nat
  sr_firmware :: "firmware_update list"

text \<open>
  The dictionary \<^verbatim>\<open>results\<close>, and the rows added to the table \<^verbatim>\<open>update_history\<close>
  (source, number of updates found, error text). Durations and timestamps are left out.
\<close>

record check_results =
  total_updates :: nat
  res_sources :: "(string \<times> source_result) list"
  res_errors :: "string list"
  res_history :: "(string \<times> nat \<times> string option) list"

definition empty_results :: check_results where
  "empty_results = \<lparr>total_updates = 0, res_sources = [], res_errors = [], res_history = []\<rparr>"

type_synonym checker = "string \<Rightarrow> source_config \<Rightarrow> py_error + firmware_update list"

text \<open>
  The loop of \<^verbatim>\<open>check_all_sources_for_updates\<close>, with the two methods it calls as
  parameters: a checker returns its updates or raises. A source of an unknown type is
  skipped by \<^verbatim>\<open>continue\<close>.
\<close>

definition check_one_source ::
  "checker \<Rightarrow> checker \<Rightarrow> check_results \<Rightarrow> string \<times> source_config \<Rightarrow> check_results" where
  "check_one_source check_github check_ota results src =
     (case src of (source_name, source_config) \<Rightarrow>
        if src_type source_config = ''github_api'' \<or> src_type source_config = ''ota_server'' then
          (case (if src_type source_config = ''github_api'' then check_github source_name source_config
                 else check_ota source_name source_config) of
             Inr updates \<Rightarrow>
               results\<lparr>res_history := res_history results @ [(source_name, length updates, None)],
                        res_sources := AList.update source_name
                           \<lparr>sr_updates = length updates, sr_firmware = updates\<rparr> (res_sources results),
                        total_updates := total_updates results + length updates\<rparr>
           | Inl e \<Rightarrow>
               results\<lparr>res_errors := res_errors results
                           @ [''Error checking '' @ source_name @ '': '' @ error_str e],
                        res_history := res_history results @ [(source_name, 0, Some (error_str e))]\<rparr>)
        else results)"

definition check_sources ::
  "checker \<Rightarrow> checker \<Rightarrow> (string \<times> source_config) list \<Rightarrow> check_results" where
  "check_sources check_github check_ota srcs =
     foldl (check_one_source check_github check_ota) empty_results srcs"

text \<open>The method itself: the loop over \<^verbatim>\<open>self.sources\<close> with the class's own checkers.\<close>

definition check_all_sources_for_updates ::
  "externals \<Rightarrow> environment \<Rightarrow> firmware list \<Rightarrow> check_results" where
  "check_all_sources_for_updates ext env catalog =
     check_sources (\<lambda>n c. Inr (check_github_source ext env catalog n c))
                   (\<lambda>n c. Inr (check_ota_source ext env catalog n c)) sources"

text \<open>
  One poll-and-save cycle for one source: the dispatch of the loop above, then
  \<^verbatim>\<open>save_firmware_updates\<close>, which the scheduler calls when the list is not empty.
\<close>

definition poll_source ::
  "externals \<Rightarrow> environment \<Rightarrow> firmware list \<Rightarrow> string \<times> source_config \<Rightarrow> firmware_update list" where
  "poll_source ext env catalog src =
     (case src of (source_name, source_config) \<Rightarrow>
        if src_type source_config = ''github_api'' then
          check_github_source ext env catalog source_name source_config
        else if src_type source_config = ''ota_server'' then
          check_ota_source ext env catalog source_name source_config
        else [])"

definition poll_and_save ::
  "externals \<Rightarrow> environment \<Rightarrow> firmware list \<Rightarrow> string \<times> source_config \<Rightarrow> firmware list" where
  "poll_and_save ext env catalog src =
     (let updates = poll_source ext env catalog src
      in if updates \<noteq> [] then save_firmware_updates catalog updates else catalog)"


subsection \<open>What a catalog has seen\<close>

text \<open>
  A catalog \<open>catalog'\<close> knows everything a poll of \<open>catalog\<close> has seen: the ids of
  \<open>catalog\<close> and the ids of the updates the poll returned.
\<close>

definition known :: "firmware list \<Rightarrow> firmware_update list \<Rightarrow> firmware list \<Rightarrow> bool" where
  "known catalog updates catalog' =
     ((\<forall>i. firmware_exists catalog i \<longrightarrow> firmware_exists catalog' i)
      \<and> (\<forall>u \<in> set updates. firmware_exists catalog' (up_id u)))"


text \<open>
  The entry \<^verbatim>\<open>github_releases\<close> of the configured sources, and the cycles in which
  \<^verbatim>\<open>_process_github_releases\<close> gets through the listing it is given without raising.
\<close>

definition github_releases_config :: source_config where
  "github_releases_config =
     \<lparr>src_url = ''https://api.github.com/repos/arendst/Tasmota/releases'',
      src_type = ''github_api'', src_channel = ''stable'', src_chip_type = None\<rparr>"

section \<open>Community firmware (community\_firmware.py)\<close>

text \<open>
  A row of the table \<^verbatim>\<open>community_firmware\<close> with the columns \<^verbatim>\<open>upload_firmware\<close>
  writes; \<open>cf_id\<close> is the primary key. The columns \<^verbatim>\<open>name\<close>, \<^verbatim>\<open>chip_type\<close> and
  \<^verbatim>\<open>local_path\<close> are declared \<^verbatim>\<open>NOT NULL\<close>; a column that may hold
  \<^verbatim>\<open>NULL\<close> is an option.
\<close>

record community_firmware =
  cf_id :: string
  cf_name :: string
  cf_display_name :: "string option"
  cf_description :: "string option"
  cf_version :: "string option"
  cf_chip_type :: string
  cf_variant :: "string option"
  cf_author_name :: "string option"
  cf_author_email :: "string option"
  cf_author_github :: "string option"
  cf_local_path :: string
  cf_file_size :: nat
  cf_md5_hash :: string
  cf_sha256_hash :: string
  cf_features :: string
  cf_compatibility :: string
  cf_gpio_template :: string
  cf_build_info :: string
  cf_source_code_url :: "string option"
  cf_documentation_url :: "string option"
  cf_license :: "string option"
  cf_tags :: string
  cf_status :: string

text \<open>
  The dictionary \<^verbatim>\<open>community_firmware\<close> that \<^verbatim>\<open>upload_firmware\<close> builds. What is
  read from \<^verbatim>\<open>metadata\<close> or \<^verbatim>\<open>author_info\<close> is whatever value the caller's JSON
  holds under the key.
\<close>

record firmware_data =
  fd_id :: string
  fd_name :: string
  fd_display_name :: json
  fd_description :: json
  fd_version :: json
  fd_chip_type :: json
  fd_variant :: json
  fd_author_name :: json
  fd_author_email :: json
  fd_author_github :: json
  fd_local_path :: string
  fd_file_size :: nat
  fd_md5_hash :: string
  fd_sha256_hash :: string
  fd_features :: string
  fd_compatibility :: string
  fd_gpio_template :: string
  fd_build_info :: string
  fd_source_code_url :: json
  fd_documentation_url :: json
  fd_license :: json
  fd_tags :: string
  fd_status :: string

text \<open>
  What the community manager reads and writes: the official catalog, its own table and
  the files on disk.
\<close>

record community_store =
  cs_firmware :: "firmware list"
  cs_community :: "community_firmware list"
  cs_disk :: disk

definition upload_dir :: string where
  "upload_dir = ''/opt/app/data/community_uploads''"

definition max_file_size :: nat where
  "max_file_size = 10 * 1024 * 1024"

definition allowed_extensions :: "string list" where
  "allowed_extensions = [''.bin'', ''.gz'']"

text \<open>
  The reasons \<^verbatim>\<open>_validate_firmware_upload\<close> gives: ``File too large. Maximum size is
  10.0MB'', ``File too small to be valid firmware'', ``Invalid file type. Allowed: ...'',
  ``This firmware file has already been uploaded'', ``Invalid firmware format - no valid
  magic bytes found'' and ``Security scan failed'' with the pattern found.
\<close>

datatype validation_error =
    FileTooLarge
  | FileTooSmall
  | InvalidFileType
  | AlreadyUploaded
  | InvalidFirmwareFormat
  | SecurityScanFailed "byte list"

definition validate_firmware_binary :: "byte list \<Rightarrow> string option" where
  "validate_firmware_binary file_data =
     (if length file_data \<ge> 4 \<and> take 4 file_data = [0xE9, 0x00, 0x00, 0x00] then Some ''ESP32''
      else if length file_data \<ge> 1 \<and> hd file_data = 0xE9 then Some ''ESP8266''
      else if take 2 file_data = [0x1f, 0x8b] then Some ''Unknown''
      else None)"

definition suspicious_patterns :: "byte list list" where
  "suspicious_patterns =
     map encode [''eval('', ''exec('', ''system('', ''shell_exec('', ''<?php'', ''<script'',
                 ''javascript:'', ''<iframe'']"

text \<open>
  \<^verbatim>\<open>_scan_for_malware\<close>: the first pattern that occurs, if any. The entropy that is
  computed afterwards is only logged; the result is clean whatever it is.
\<close>

definition scan_for_malware :: "byte list \<Rightarrow> byte list option" where
  "scan_for_malware file_data = find (\<lambda>pattern. py_in pattern file_data) suspicious_patterns"

definition firmware_hash_exists :: "community_store \<Rightarrow> string \<Rightarrow> bool" where
  "firmware_hash_exists store file_hash =
     (if list_ex (\<lambda>row. fw_sha256_hash row = Some file_hash) (cs_firmware store) then True
      else list_ex (\<lambda>row. cf_sha256_hash row = file_hash) (cs_community store))"

text \<open>\<^verbatim>\<open>_validate_firmware_upload\<close>: the reason of the rejection, or the chip type.\<close>

definition validate_firmware_upload ::
  "externals \<Rightarrow> community_store \<Rightarrow> byte list \<Rightarrow> string \<Rightarrow> py_dict
     \<Rightarrow> validation_error + string" where
  "validate_firmware_upload ext store file_data filename metadata =
     (if length file_data > max_file_size then Inl FileTooLarge
      else if length file_data < 100000 then Inl FileTooSmall
      else if lower (splitext_ext filename) \<notin> set allowed_extensions then Inl InvalidFileType
      else if firmware_hash_exists store (sha256_hexdigest ext file_data) then Inl AlreadyUploaded
      else
        (case validate_firmware_binary file_data of
           None \<Rightarrow> Inl InvalidFirmwareFormat
         | Some chip_type \<Rightarrow>
             (case scan_for_malware file_data of
                Some pattern \<Rightarrow> Inl (SecurityScanFailed pattern)
              | None \<Rightarrow> Inr chip_type)))"

text \<open>
  \<^verbatim>\<open>_generate_community_firmware_id\<close>; \<open>now\<close> is the text of
  \<^verbatim>\<open>datetime.now().isoformat()\<close> at the call.
\<close>

definition generate_community_firmware_id ::
  "externals \<Rightarrow> string \<Rightarrow> string \<Rightarrow> py_dict \<Rightarrow> string" where
  "generate_community_firmware_id ext now filename metadata =
     ''community_'' @
     md5_hexdigest ext
       (encode (filename @ ''_'' @ format_value ext (dict_get metadata ''version'' (JString ''custom''))
                  @ ''_'' @ now))"

text \<open>
  \<^verbatim>\<open>_save_community_firmware\<close>: a plain \<^verbatim>\<open>INSERT\<close>. The sqlite3 module binds
  \<^verbatim>\<open>None\<close> and the booleans, numbers and strings it can adapt, and raises for a list
  or a dictionary; the statement then fails when \<^verbatim>\<open>chip_type\<close> is \<^verbatim>\<open>NULL\<close> or the
  id is taken. The method logs the exception and raises it again.
\<close>

datatype sqlite_error = UnsupportedValue | ConstraintFailed

definition bindable :: "externals \<Rightarrow> json \<Rightarrow> bool" where
  "bindable ext v =
     (case v of JArray xs \<Rightarrow> False | JObject kvs \<Rightarrow> False | JNull \<Rightarrow> True
      | _ \<Rightarrow> sqlite_adapts ext v)"

definition column_value :: "externals \<Rightarrow> json \<Rightarrow> string option" where
  "column_value ext v =
     (case v of JNull \<Rightarrow> None | JString s \<Rightarrow> Some s | _ \<Rightarrow> sqlite_text ext v)"

definition bound_values :: "firmware_data \<Rightarrow> json list" where
  "bound_values firmware_data =
     [fd_display_name firmware_data, fd_description firmware_data, fd_version firmware_data,
      fd_chip_type firmware_data, fd_variant firmware_data, fd_author_name firmware_data,
      fd_author_email firmware_data, fd_author_github firmware_data,
      fd_source_code_url firmware_data, fd_documentation_url firmware_data,
      fd_license firmware_data]"

definition save_community_firmware ::
  "externals \<Rightarrow> community_store \<Rightarrow> firmware_data \<Rightarrow> sqlite_error + community_store" where
  "save_community_firmware ext store firmware_data =
     (if \<not> list_all (bindable ext) (bound_values firmware_data) then Inl UnsupportedValue
      else
        (case column_value ext (fd_chip_type firmware_data) of
           None \<Rightarrow> Inl ConstraintFailed
         | Some chip_type \<Rightarrow>
             if list_ex (\<lambda>row. cf_id row = fd_id firmware_data) (cs_community store)
             then Inl ConstraintFailed
             else
               Inr (store\<lparr>cs_community := cs_community store @
                     [\<lparr>cf_id = fd_id firmware_data,
                       cf_name = fd_name firmware_data,
                       cf_display_name = column_value ext (fd_display_name firmware_data),
                       cf_description = column_value ext (fd_description firmware_data),
                       cf_version = column_value ext (fd_version firmware_data),
                       cf_chip_type = chip_type,
                       cf_variant = column_value ext (fd_variant firmware_data),
                       cf_author_name = column_value ext (fd_author_name firmware_data),
                       cf_author_email = column_value ext (fd_author_email firmware_data),
                       cf_author_github = column_value ext (fd_author_github firmware_data),
                       cf_local_path = fd_local_path firmware_data,
                       cf_file_size = fd_file_size firmware_data,
                       cf_md5_hash = fd_md5_hash firmware_data,
                       cf_sha256_hash = fd_sha256_hash firmware_data,
                       cf_features = fd_features firmware_data,
                       cf_compatibility = fd_compatibility firmware_data,
                       cf_gpio_template = fd_gpio_template firmware_data,
                       cf_build_info = fd_build_info firmware_data,
                       cf_source_code_url = column_value ext (fd_source_code_url firmware_data),
                       cf_documentation_url = column_value ext (fd_documentation_url firmware_data),
                       cf_license = column_value ext (fd_license firmware_data),
                       cf_tags = fd_tags firmware_data,
                       cf_status = fd_status firmware_data\<rparr>]\<rparr>)))"

text \<open>
  The result of \<^verbatim>\<open>upload_firmware\<close>: a rejection by the validation, the id of the new
  entry, or the failure its \<^verbatim>\<open>except\<close> branch reports.
\<close>

datatype upload_result =
    UploadRejected validation_error
  | Uploaded string
  | UploadFailed sqlite_error

text \<open>
  The dictionary \<^verbatim>\<open>community_firmware\<close> of \<^verbatim>\<open>upload_firmware\<close>.
  \<^verbatim>\<open>_analyze_firmware_file\<close> never fills \<^verbatim>\<open>build_info\<close>, which is stored as the
  text of the empty dictionary.
\<close>

definition community_firmware_data ::
  "externals \<Rightarrow> string \<Rightarrow> string \<Rightarrow> byte list \<Rightarrow> string \<Rightarrow> py_dict \<Rightarrow> py_dict \<Rightarrow> string
     \<Rightarrow> firmware_data" where
  "community_firmware_data ext firmware_id local_path file_data secure_name metadata author_info
       detected_chip_type =
     \<lparr>fd_id = firmware_id,
      fd_name = secure_name,
      fd_display_name = dict_get metadata ''display_name'' (JString secure_name),
      fd_description = dict_get metadata ''description'' (JString []),
      fd_version = dict_get metadata ''version'' (JString ''custom''),
      fd_chip_type = dict_get metadata ''chip_type'' (JString detected_chip_type),
      fd_variant = dict_get metadata ''variant'' (JString ''custom''),
      fd_author_name = dict_get author_info ''name'' (JString ''Anonymous''),
      fd_author_email = dict_get author_info ''email'' (JString []),
      fd_author_github = dict_get author_info ''github'' (JString []),
      fd_local_path = local_path,
      fd_file_size = length file_data,
      fd_md5_hash = md5_hexdigest ext file_data,
      fd_sha256_hash = sha256_hexdigest ext file_data,
      fd_features = json_dumps ext (dict_get metadata ''features'' (JArray [])),
      fd_compatibility = json_dumps ext (dict_get metadata ''compatibility'' (JArray [])),
      fd_gpio_template = json_dumps ext (dict_get metadata ''gpio_template'' (JObject [])),
      fd_build_info = json_dumps ext (JObject []),
      fd_source_code_url = dict_get metadata ''source_code_url'' (JString []),
      fd_documentation_url = dict_get metadata ''documentation_url'' (JString []),
      fd_license = dict_get metadata ''license'' (JString ''Unknown''),
      fd_tags = json_dumps ext (dict_get metadata ''tags'' (JArray [])),
      fd_status = ''pending''\<rparr>"

text \<open>
  \<^verbatim>\<open>upload_firmware\<close>. The file is written before the row is inserted; when the
  \<^verbatim>\<open>INSERT\<close> raises, the \<^verbatim>\<open>except\<close> branch reports the failure with the file
  already written.
\<close>

definition upload_firmware ::
  "externals \<Rightarrow> string \<Rightarrow> community_store \<Rightarrow> byte list \<Rightarrow> string \<Rightarrow> py_dict \<Rightarrow> py_dict
     \<Rightarrow> upload_result \<times> community_store" where
  "upload_firmware ext now store file_data filename metadata author_info =
     (case validate_firmware_upload ext store file_data filename metadata of
        Inl reason \<Rightarrow> (UploadRejected reason, store)
      | Inr detected_chip_type \<Rightarrow>
          let firmware_id = generate_community_firmware_id ext now filename metadata;
              secure_name = secure_filename ext filename;
              file_extension = lower (splitext_ext secure_name);
              local_path = path_join upload_dir (firmware_id @ file_extension);
              store' = store\<lparr>cs_disk := write_file (cs_disk store) local_path file_data\<rparr>;
              community_firmware =
                community_firmware_data ext firmware_id local_path file_data secure_name metadata
                  author_info detected_chip_type
          in case save_community_firmware ext store' community_firmware of
               Inl e \<Rightarrow> (UploadFailed e, store')
             | Inr store'' \<Rightarrow> (Uploaded firmware_id, store''))"

section \<open>Automated review of community firmware (background\_scheduler.py)\<close>

text \<open>
  The dictionary handed to \<^verbatim>\<open>_automated_firmware_review\<close> is built from a row of the
  table \<^verbatim>\<open>community_firmware\<close>: every key is present and a NULL column reads as
  \<^verbatim>\<open>None\<close>. Only the keys the review reads are kept.
\<close>

record review_input =
  ri_file_size :: "int option"
  ri_chip_type :: "string option"
  ri_variant :: "string option"
  ri_author_name :: "string option"
  ri_description :: "string option"
  ri_name :: "string option"

text \<open>The dictionary \<^verbatim>\<open>get_community_firmware_list\<close> builds from a row that an upload wrote.\<close>

definition review_input_of :: "community_firmware \<Rightarrow> review_input" where
  "review_input_of row =
     \<lparr>ri_file_size = Some (int (cf_file_size row)),
      ri_chip_type = Some (cf_chip_type row),
      ri_variant = cf_variant row,
      ri_author_name = cf_author_name row,
      ri_description = cf_description row,
      ri_name = Some (cf_name row)\<rparr>"

record review_result =
  auto_approve :: bool
  auto_reject :: bool
  rejection_reason :: "string option"
  confidence_tenths :: nat

text \<open>The initial \<^verbatim>\<open>review_result\<close>; it is also what the \<^verbatim>\<open>except\<close> branch returns.\<close>

definition review_default :: review_result where
  "review_default =
     \<lparr>auto_approve = False, auto_reject = False, rejection_reason = None, confidence_tenths = 0\<rparr>"

definition review_reject :: "string \<Rightarrow> review_result" where
  "review_reject reason = review_default\<lparr>auto_reject := True, rejection_reason := Some reason\<rparr>"

text \<open>\<^verbatim>\<open>not firmware.get(field)\<close>: the value is \<^verbatim>\<open>None\<close> or the empty string.\<close>

definition falsy :: "string option \<Rightarrow> bool" where
  "falsy v = (case v of None \<Rightarrow> True | Some s \<Rightarrow> s = [])"

definition missing_fields :: "review_input \<Rightarrow> string list" where
  "missing_fields fw =
     (if falsy (ri_chip_type fw) then [''chip_type''] else []) @
     (if falsy (ri_variant fw) then [''variant''] else []) @
     (if falsy (ri_author_name fw) then [''author_name''] else [])"

definition suspicious_keywords :: "string list" where
  "suspicious_keywords = [''hack'', ''crack'', ''exploit'', ''backdoor'', ''virus'']"

text \<open>
  \<open>approved_count\<close> stands for
  \<^verbatim>\<open>len(self.community_manager.get_community_firmware_list(author=..., status='approved'))\<close>.
  The confidence \<^verbatim>\<open>0.8\<close> is kept in tenths. A \<^verbatim>\<open>None\<close> file size makes the comparison
  raise, a \<^verbatim>\<open>None\<close> description or name makes \<^verbatim>\<open>.lower()\<close> raise; both land in the
  \<^verbatim>\<open>except\<close> branch, which returns the result as it stands.
\<close>

definition automated_firmware_review :: "(string option \<Rightarrow> nat) \<Rightarrow> review_input \<Rightarrow> review_result" where
  "automated_firmware_review approved_count fw =
     (case ri_file_size fw of
        None \<Rightarrow> review_default
      | Some file_size \<Rightarrow>
          if file_size < 100000 \<or> file_size > 8 * 1024 * 1024 then review_reject ''Invalid file size''
          else if missing_fields fw \<noteq> [] then
            review_reject (''Missing required fields: '' @ join '', '' (missing_fields fw))
          else
            (case (ri_description fw, ri_name fw) of
               (Some description, Some name) \<Rightarrow>
                 if list_ex (\<lambda>keyword. py_in keyword (lower description) \<or> py_in keyword (lower name))
                      suspicious_keywords
                 then review_reject ''Suspicious content detected''
                 else if file_size > 500000
                       \<and> (ri_chip_type fw = Some ''ESP32'' \<or> ri_chip_type fw = Some ''ESP8266'')
                       \<and> length description > 50
                       \<and> approved_count (ri_author_name fw) \<ge> 3
                 then review_default\<lparr>auto_approve := True, confidence_tenths := 8\<rparr>
                 else review_default
             | _ \<Rightarrow> review_default))"


subsection \<open>The review task\<close>

text \<open>
  \<^verbatim>\<open>get_community_firmware_list(status='pending', limit=50)\<close>: the first fifty pending
  rows in the order of the query. The query orders by average rating, download count and
  upload time, which are not among the modelled columns, so the order is a parameter.
\<close>

definition pending_firmware ::
  "(community_firmware list \<Rightarrow> community_firmware list) \<Rightarrow> community_store \<Rightarrow> community_firmware list" where
  "pending_firmware order_by store =
     take 50 (order_by (filter (\<lambda>row. cf_status row = ''pending'') (cs_community store)))"

text \<open>
  The class \<^verbatim>\<open>BackgroundScheduler\<close> defines neither \<^verbatim>\<open>_approve_community_firmware\<close>
  nor \<^verbatim>\<open>_reject_community_firmware\<close>, and no other statement of the repository writes
  the column \<^verbatim>\<open>status\<close>: looking the attribute up raises \<^verbatim>\<open>AttributeError\<close>.
\<close>

definition approve_community_firmware ::
  "community_store \<Rightarrow> string \<Rightarrow> string \<Rightarrow> py_error + community_store" where
  "approve_community_firmware store firmware_id reviewer =
     Inl (AttributeError ''_approve_community_firmware'')"

definition reject_community_firmware ::
  "community_store \<Rightarrow> string \<Rightarrow> string \<Rightarrow> string option \<Rightarrow> py_error + community_store" where
  "reject_community_firmware store firmware_id reviewer reason =
     Inl (AttributeError ''_reject_community_firmware'')"

text \<open>
  The body of the loop of \<^verbatim>\<open>_review_community_firmware\<close> for one pending entry, on
  the store and the count of reviewed entries. An exception is logged and the loop goes on;
  the count is raised after the call that approves or rejects has returned.
  \<open>approved_count\<close> reads the approved entries of an author from the store.
\<close>

definition review_one ::
  "(community_store \<Rightarrow> string option \<Rightarrow> nat) \<Rightarrow> community_store \<times> nat \<Rightarrow> community_firmware
     \<Rightarrow> community_store \<times> nat" where
  "review_one approved_count acc firmware =
     (case acc of (store, reviewed_count) \<Rightarrow>
        let review_result = automated_firmware_review (approved_count store) (review_input_of firmware)
        in if auto_approve review_result then
             (case approve_community_firmware store (cf_id firmware) ''automated_review'' of
                Inl e \<Rightarrow> (store, reviewed_count)
              | Inr store' \<Rightarrow> (store', reviewed_count + 1))
           else if auto_reject review_result then
             (case reject_community_firmware store (cf_id firmware) ''automated_review''
                     (rejection_reason review_result) of
                Inl e \<Rightarrow> (store, reviewed_count)
              | Inr store' \<Rightarrow> (store', reviewed_count + 1))
           else (store, reviewed_count))"

definition review_community_firmware ::
  "(community_firmware list \<Rightarrow> community_firmware list) \<Rightarrow> (community_store \<Rightarrow> string option \<Rightarrow> nat)
     \<Rightarrow> community_store \<Rightarrow> community_store \<times> nat" where
  "review_community_firmware order_by approved_count store =
     foldl (review_one approved_count) (store, 0) (pending_firmware order_by store)"
section \<open>The firmware cache (firmware\_cache.py)\<close>

text \<open>
  A row of the table \<^verbatim>\<open>firmware_cache\<close>; \<open>ce_firmware_id\<close> is the primary key.
  Times are seconds on one clock; \<^verbatim>\<open>cached_at\<close>, which nothing reads, is left out.
\<close>

record cache_entry =
  ce_firmware_id :: string
  ce_local_path :: string
  ce_download_url :: string
  ce_file_size :: nat
  ce_md5_hash :: string
  ce_sha256_hash :: string
  ce_download_count :: nat
  ce_last_accessed :: int
  ce_verified :: bool

text \<open>
  What the cache manager reads and writes: its own table, the catalog (whose
  \<^verbatim>\<open>local_path\<close> it updates) and the files on disk. The table \<^verbatim>\<open>cache_stats\<close>,
  which is only written, is left out.
\<close>

record cache_state =
  firmware_cache :: "cache_entry list"
  firmware_db :: "firmware list"
  files :: disk

definition cache_dir :: string where
  "cache_dir = ''/opt/app/data/firmware_cache''"

definition max_cache_size :: int where
  "max_cache_size = 2 * 1024 * 1024 * 1024"

definition cache_retention_days :: int where
  "cache_retention_days = 30"

definition cache_path :: "string \<Rightarrow> string" where
  "cache_path firmware_id = path_join cache_dir (firmware_id @ ''.bin'')"

text \<open>
  What \<^verbatim>\<open>_download_file\<close> does to the temporary file: it raises after writing some
  bytes, or it writes the whole body and returns its length and the two digests that
  hashlib computed over the chunks.
\<close>

datatype download_outcome =
    DownloadFailed "byte list"
  | Downloaded "byte list" string string

definition downloaded_bytes :: "download_outcome \<Rightarrow> byte list" where
  "downloaded_bytes outcome =
     (case outcome of DownloadFailed written \<Rightarrow> written | Downloaded content md5 sha256 \<Rightarrow> content)"

text \<open>
  \<^verbatim>\<open>_verify_firmware_file\<close>. Reading \<^verbatim>\<open>header[0]\<close> of an empty header raises, and
  the \<^verbatim>\<open>except\<close> branch returns \<^verbatim>\<open>False\<close>.
\<close>

definition verify_firmware_file :: "disk \<Rightarrow> string \<Rightarrow> bool" where
  "verify_firmware_file d file_path =
     (case map_of d file_path of
        None \<Rightarrow> False
      | Some content \<Rightarrow>
          if length content < 100000 then False
          else
            (let header = take 16 content in
             if take 4 header = [0xE9, 0x00, 0x00, 0x00] then True
             else (case header of [] \<Rightarrow> False | b # bs \<Rightarrow> b = 0xE9)))"

definition remove_from_cache_db :: "cache_state \<Rightarrow> string \<Rightarrow> cache_state" where
  "remove_from_cache_db s firmware_id =
     s\<lparr>firmware_cache := filter (\<lambda>e. ce_firmware_id e \<noteq> firmware_id) (firmware_cache s)\<rparr>"

text \<open>\<^verbatim>\<open>INSERT OR REPLACE\<close>: the columns that are not listed take their defaults.\<close>

definition add_to_cache_db ::
  "cache_state \<Rightarrow> string \<Rightarrow> string \<Rightarrow> string \<Rightarrow> nat \<Rightarrow> string \<Rightarrow> string \<Rightarrow> int \<Rightarrow> cache_state" where
  "add_to_cache_db s firmware_id local_path download_url file_size md5_hash sha256_hash now =
     s\<lparr>firmware_cache :=
          filter (\<lambda>e. ce_firmware_id e \<noteq> firmware_id) (firmware_cache s) @
          [\<lparr>ce_firmware_id = firmware_id, ce_local_path = local_path,
            ce_download_url = download_url, ce_file_size = file_size,
            ce_md5_hash = md5_hash, ce_sha256_hash = sha256_hash,
            ce_download_count = 0, ce_last_accessed = now, ce_verified = True\<rparr>]\<rparr>"

definition get_cached_firmware_path :: "cache_state \<Rightarrow> string \<Rightarrow> string option \<times> cache_state" where
  "get_cached_firmware_path s firmware_id =
     (case find (\<lambda>e. ce_firmware_id e = firmware_id \<and> ce_verified e) (firmware_cache s) of
        None \<Rightarrow> (None, s)
      | Some row \<Rightarrow>
          if path_exists (files s) (ce_local_path row) then (Some (ce_local_path row), s)
          else (None, remove_from_cache_db s firmware_id))"

definition update_access_time :: "cache_state \<Rightarrow> string \<Rightarrow> int \<Rightarrow> cache_state" where
  "update_access_time s firmware_id now =
     s\<lparr>firmware_cache :=
          map (\<lambda>e. if ce_firmware_id e = firmware_id
                   then e\<lparr>ce_last_accessed := now, ce_download_count := ce_download_count e + 1\<rparr>
                   else e)
              (firmware_cache s)\<rparr>"

definition update_firmware_local_path :: "cache_state \<Rightarrow> string \<Rightarrow> string \<Rightarrow> cache_state" where
  "update_firmware_local_path s firmware_id local_path =
     s\<lparr>firmware_db :=
          map (\<lambda>row. if fw_id row = firmware_id then row\<lparr>fw_local_path := Some local_path\<rparr> else row)
              (firmware_db s)\<rparr>"

text \<open>
  The steps of \<^verbatim>\<open>download_and_cache_firmware\<close> on the disk, in the order of the
  source: the temporary file is created and written, then it is moved to its place in the
  cache directory, and only then it is verified there.
\<close>

definition download_file :: "cache_state \<Rightarrow> string \<Rightarrow> download_outcome \<Rightarrow> cache_state" where
  "download_file s temp_path outcome =
     s\<lparr>files := write_file (write_file (files s) temp_path []) temp_path (downloaded_bytes outcome)\<rparr>"

definition move_to_cache :: "cache_state \<Rightarrow> string \<Rightarrow> string \<Rightarrow> cache_state" where
  "move_to_cache s temp_path firmware_id =
     s\<lparr>files := move_file (files s) temp_path (cache_path firmware_id)\<rparr>"

text \<open>\<^verbatim>\<open>cached_path and os.path.exists(cached_path)\<close>.\<close>

definition cache_hit :: "string option \<Rightarrow> cache_state \<Rightarrow> bool" where
  "cache_hit cached s = (case cached of None \<Rightarrow> False | Some p \<Rightarrow> p \<noteq> [] \<and> path_exists (files s) p)"

definition download_and_cache_firmware ::
  "cache_state \<Rightarrow> string \<Rightarrow> string \<Rightarrow> string \<Rightarrow> download_outcome \<Rightarrow> int
     \<Rightarrow> string option \<times> cache_state" where
  "download_and_cache_firmware s firmware_id download_url temp_path outcome now =
     (case get_cached_firmware_path s firmware_id of
        (cached_path, s0) \<Rightarrow>
          if cache_hit cached_path s0 then (cached_path, update_access_time s0 firmware_id now)
          else
            (let s1 = download_file s0 temp_path outcome in
             case outcome of
               DownloadFailed written \<Rightarrow>
                 (None,
                  if path_exists (files s1) temp_path
                  then s1\<lparr>files := remove_file (files s1) temp_path\<rparr> else s1)
             | Downloaded content md5_hash sha256_hash \<Rightarrow>
                 (let s2 = move_to_cache s1 temp_path firmware_id in
                  if verify_firmware_file (files s2) (cache_path firmware_id) then
                    (Some (cache_path firmware_id),
                     update_firmware_local_path
                       (add_to_cache_db s2 firmware_id (cache_path firmware_id) download_url
                          (length content) md5_hash sha256_hash now)
                       firmware_id (cache_path firmware_id))
                  else
                    (None, s2\<lparr>files := remove_file (files s2) (cache_path firmware_id)\<rparr>))))"

text \<open>\<^verbatim>\<open>_get_cache_size\<close>: the bytes of all files below the cache directory.\<close>

definition get_cache_size :: "disk \<Rightarrow> int" where
  "get_cache_size d = (\<Sum>f \<leftarrow> filter (\<lambda>f. in_dir cache_dir (fst f)) d. int (length (snd f)))"

text \<open>
  The rows the cleanup selects, in the order of the query. The products with
  \<^verbatim>\<open>0.8\<close> and \<^verbatim>\<open>0.7\<close> are floating-point numbers strictly between two integers
  (1717986918.4 and 1503238553.6), so comparing a size with them is comparing ten times the
  size with eight or seven times the ceiling.
\<close>

definition eviction_candidate :: "int \<Rightarrow> cache_entry \<Rightarrow> bool" where
  "eviction_candidate now e =
     (ce_last_accessed e < now - cache_retention_days * 86400 \<or> ce_download_count e = 0)"

definition eviction_candidates :: "int \<Rightarrow> cache_entry list \<Rightarrow> cache_entry list" where
  "eviction_candidates now table =
     sort_key (\<lambda>e. (ce_last_accessed e, ce_download_count e)) (filter (eviction_candidate now) table)"

definition remove_cached :: "cache_state \<Rightarrow> cache_entry \<Rightarrow> cache_state" where
  "remove_cached s c =
     remove_from_cache_db
       (if path_exists (files s) (ce_local_path c)
        then s\<lparr>files := remove_file (files s) (ce_local_path c)\<rparr> else s)
       (ce_firmware_id c)"

fun cleanup_loop :: "int \<Rightarrow> int \<Rightarrow> cache_entry list \<Rightarrow> cache_state \<Rightarrow> cache_state \<times> int" where
  "cleanup_loop current_size removed_size [] s = (s, removed_size)"
| "cleanup_loop current_size removed_size (c # cs) s =
     (if 10 * (current_size - removed_size) < 7 * max_cache_size then (s, removed_size)
      else cleanup_loop current_size (removed_size + int (ce_file_size c)) cs (remove_cached s c))"

definition cleanup_cache :: "cache_state \<Rightarrow> bool \<Rightarrow> int \<Rightarrow> cache_state" where
  "cleanup_cache s force now =
     (let current_size = get_cache_size (files s) in
      if \<not> force \<and> 10 * current_size < 8 * max_cache_size then s
      else fst (cleanup_loop current_size 0 (eviction_candidates now (firmware_cache s)) s))"

subsection \<open>Sequences of cache operations\<close>

datatype cache_op =
    Download string string string download_outcome int
  | Get string
  | Cleanup bool int

fun apply_op :: "cache_state \<Rightarrow> cache_op \<Rightarrow> cache_state" where
  "apply_op s (Download firmware_id download_url temp_path outcome now) =
     snd (download_and_cache_firmware s firmware_id download_url temp_path outcome now)"
| "apply_op s (Get firmware_id) = snd (get_cached_firmware_path s firmware_id)"
| "apply_op s (Cleanup force now) = cleanup_cache s force now"

definition run_ops :: "cache_state \<Rightarrow> cache_op list \<Rightarrow> cache_state" where
  "run_ops s ops = foldl apply_op s ops"

text \<open>
  Firmware ids are file names (the catalog's ids are hexadecimal digests), and the
  temporary file that \<^verbatim>\<open>tempfile\<close> creates is not below the cache directory.
\<close>

definition valid_firmware_id :: "string \<Rightarrow> bool" where
  "valid_firmware_id firmware_id = (CHR ''/'' \<notin> set firmware_id)"

fun valid_op :: "cache_op \<Rightarrow> bool" where
  "valid_op (Download firmware_id download_url temp_path outcome now) =
     (valid_firmware_id firmware_id \<and> \<not> in_dir cache_dir temp_path)"
| "valid_op (Get firmware_id) = True"
| "valid_op (Cleanup force now) = True"

text \<open>The cache before its first operation: no rows, and no file below the cache directory.\<close>

definition new_cache :: "firmware list \<Rightarrow> disk \<Rightarrow> cache_state" where
  "new_cache catalog d = \<lparr>firmware_cache = [], firmware_db = catalog, files = d\<rparr>"

definition outside_cache :: "disk \<Rightarrow> bool" where
  "outside_cache d = (distinct (map fst d) \<and> \<not> list_ex (\<lambda>f. in_dir cache_dir (fst f)) d)"

text \<open>
  The invariant of the cache index: every row's file exists, every file below the cache
  directory is the file of some row, and no two rows have the same id.
\<close>

definition cache_consistent :: "cache_state \<Rightarrow> bool" where
  "cache_consistent s =
     (list_all (\<lambda>e. path_exists (files s) (ce_local_path e)) (firmware_cache s)
      \<and> list_all (\<lambda>f. in_dir cache_dir (fst f)
                       \<longrightarrow> list_ex (\<lambda>e. ce_local_path e = fst f) (firmware_cache s))
                 (files s)
      \<and> distinct (map ce_firmware_id (firmware_cache s)))"

text \<open>
  The states the operations keep the cache in: besides the invariant, every row is
  verified, belongs to a valid id, names the file \<open>cache_path\<close> gives for its id and
  records that file's size, and no path occurs twice on the disk.
\<close>

definition cache_wf :: "cache_state \<Rightarrow> bool" where
  "cache_wf s =
     (distinct (map fst (files s))
      \<and> distinct (map ce_firmware_id (firmware_cache s))
      \<and> list_all (\<lambda>e. ce_verified e \<and> valid_firmware_id (ce_firmware_id e)
                       \<and> ce_local_path e = cache_path (ce_firmware_id e)
                       \<and> (case map_of (files s) (ce_local_path e) of
                            None \<Rightarrow> False
                          | Some content \<Rightarrow> length content = ce_file_size e))
                 (firmware_cache s)
      \<and> list_all (\<lambda>f. in_dir cache_dir (fst f)
                       \<longrightarrow> list_ex (\<lambda>e. ce_local_path e = fst f) (firmware_cache s))
                 (files s))"

section \<open>Concrete inputs\<close>

text \<open>
  Library behaviour for concrete instances: the digests render the bytes they are given
  (so different inputs have different digests), file names are already secure, a URL is
  joined by appending, and the listing has no match. Of the values, only those the
  instances use are rendered: \<^verbatim>\<open>None\<close>, the empty list and the empty dictionary.
\<close>

definition decode :: "byte list \<Rightarrow> string" where
  "decode bs = map (\<lambda>b. char_of (unat b)) bs"

definition sample_externals :: externals where
  "sample_externals =
     \<lparr>md5_hexdigest = decode, sha256_hexdigest = decode, secure_filename = (\<lambda>name. name),
      urljoin = (\<lambda>base name. base @ name), bin_pattern_finditer = (\<lambda>html. []),
      py_str = (\<lambda>v. ''None''),
      json_dumps = (\<lambda>v. case v of JArray [] \<Rightarrow> ''[]'' | JObject [] \<Rightarrow> ''{}'' | _ \<Rightarrow> ''null''),
      sqlite_adapts = (\<lambda>v. True), sqlite_text = (\<lambda>v. None)\<rparr>"

text \<open>The empty dictionary, for \<^verbatim>\<open>metadata\<close> and for \<^verbatim>\<open>author_info\<close>.\<close>

definition no_metadata :: py_dict where
  "no_metadata = Map.empty"

definition anonymous :: py_dict where
  "anonymous = Map.empty"

definition empty_store :: community_store where
  "empty_store = \<lparr>cs_firmware = [], cs_community = [], cs_disk = []\<rparr>"

text \<open>A firmware image of \<open>n + 4\<close> bytes: the ESP32 magic and zeros.\<close>

definition esp32_image :: "nat \<Rightarrow> byte list" where
  "esp32_image n = [0xE9, 0x00, 0x00, 0x00] @ replicate n 0"

text \<open>A release \<^verbatim>\<open>v13.2.0\<close> with the one asset \<^verbatim>\<open>tasmota32-sensors.bin\<close> of 650000 bytes.\<close>

definition sensors_release :: "string \<Rightarrow> string \<Rightarrow> string \<Rightarrow> release" where
  "sensors_release published_at body url =
     \<lparr>rel_draft = False, rel_prerelease = False, rel_tag_name = Some ''v13.2.0'',
      rel_published_at = Some published_at, rel_body = body,
      rel_assets = [\<lparr>asset_name = Some ''tasmota32-sensors.bin'',
                     asset_browser_download_url = Some url, asset_size = Some 650000\<rparr>]\<rparr>"

text \<open>Two environments: every request fails; the release listing holds that release.\<close>

definition unreachable :: environment where
  "unreachable =
     \<lparr>github_get = (\<lambda>url. RequestFailed ''Cannot connect to host''),
      ota_get = (\<lambda>url. RequestFailed ''Cannot connect to host''),
      now_isoformat = ''2024-01-01T00:00:00''\<rparr>"

definition release_listing :: environment where
  "release_listing =
     \<lparr>github_get = (\<lambda>url. Reply 200 [sensors_release ''2023-12-14T09:00:00Z'' ''Release notes''
        ''https://github.com/arendst/Tasmota/releases/download/v13.2.0/tasmota32-sensors.bin'']),
      ota_get = (\<lambda>url. RequestFailed ''Cannot connect to host''),
      now_isoformat = ''2024-01-01T00:00:00''\<rparr>"





text \<open>
  An image of \<open>n + 4\<close> bytes whose header matches no signature, and two operations on the
  cache: the download of a firmware image of 100000 bytes, and of a large one.
\<close>

definition wrong_header_image :: "nat \<Rightarrow> byte list" where
  "wrong_header_image n = [0x7F, 0x45, 0x4C, 0x46] @ replicate n 0"

definition first_download :: cache_op where
  "first_download =
     Download ''fw1'' ''http://ota.tasmota.com/tasmota32/release/tasmota32.bin''
       ''/tmp/tmpa1b2c3.bin'' (Downloaded (esp32_image 99996) ''md5-1'' ''sha256-1'') 1000"


section \<open>Properties\<close>

subsection \<open>Evaluating the validation on a firmware image\<close>

lemma py_in_set: "py_in needle hay \<Longrightarrow> set needle \<subseteq> set hay"
proof (induction hay)
  case Nil
  then show ?case by simp
next
  case (Cons h hs)
  from Cons.prems have "prefix needle (h # hs) \<or> py_in needle hs" by simp
  then show ?case
  proof
    assume "prefix needle (h # hs)"
    then show ?thesis by (rule set_mono_prefix)
  next
    assume "py_in needle hs"
    then have "set needle \<subseteq> set hs" by (rule Cons.IH)
    then show ?thesis by auto
  qed
qed

lemma set_esp32_image: "set (esp32_image n) \<subseteq> {0xE9, 0}"
  by (auto simp: esp32_image_def)

lemma scan_esp32_image: "scan_for_malware (esp32_image n) = None"
proof -
  have "\<not> py_in p (esp32_image n)" if "p \<in> set suspicious_patterns" for p
  proof
    assume "py_in p (esp32_image n)"
    then have "set p \<subseteq> {0xE9, 0}" using py_in_set set_esp32_image by blast
    with that show False
      by (auto simp: suspicious_patterns_def encode_def)
  qed
  then show ?thesis
    by (simp add: scan_for_malware_def find_None_iff)
qed

lemma binary_esp32_image: "validate_firmware_binary (esp32_image n) = Some ''ESP32''"
  by (simp add: validate_firmware_binary_def esp32_image_def)

lemma length_esp32_image: "length (esp32_image n) = n + 4"
  by (simp add: esp32_image_def)

lemma splitext_fw_bin: "splitext_ext ''fw.bin'' = ''.bin''"
  by (simp add: splitext_ext_def basename_def)

lemma lower_bin: "lower ''.bin'' = ''.bin''"
  by (simp add: lower_def lower_char_def)

lemma find_append_new:
  "\<not> list_ex P xs \<Longrightarrow> P x \<Longrightarrow> find P (xs @ [x]) = Some x"
  by (induction xs) auto

lemma unat_of_char: "unat (of_char c :: 8 word) = (of_char c :: nat)"
proof -
  have "unat (of_nat (of_char c) :: 8 word) = of_char c mod 256"
    by (simp only: unat_of_nat take_bit_eq_mod) simp
  then show ?thesis
    by (simp add: of_nat_of_char)
qed

lemma decode_encode: "decode (encode s) = s"
  by (induction s) (simp_all add: decode_def encode_def unat_of_char)


lemma validate_esp32_image:
  "100000 \<le> n + 4 \<Longrightarrow> n + 4 \<le> max_file_size \<Longrightarrow>
   \<not> firmware_hash_exists store (sha256_hexdigest ext (esp32_image n)) \<Longrightarrow>
   validate_firmware_upload ext store (esp32_image n) ''fw.bin'' metadata = Inr ''ESP32''"
  by (simp add: validate_firmware_upload_def length_esp32_image splitext_fw_bin lower_bin
        allowed_extensions_def binary_esp32_image scan_esp32_image)

subsection \<open>Uploads\<close>

lemma upload_rejected_unchanged:
  "validate_firmware_upload ext store file_data filename metadata = Inl reason \<Longrightarrow>
   upload_firmware ext now store file_data filename metadata author = (UploadRejected reason, store)"
  by (simp add: upload_firmware_def)

lemma validate_duplicate:
  assumes "firmware_hash_exists store (sha256_hexdigest ext file_data)"
  shows "\<exists>reason. validate_firmware_upload ext store file_data filename metadata = Inl reason"
    and "length file_data \<le> max_file_size \<Longrightarrow> 100000 \<le> length file_data \<Longrightarrow>
         lower (splitext_ext filename) \<in> set allowed_extensions \<Longrightarrow>
         validate_firmware_upload ext store file_data filename metadata = Inl AlreadyUploaded"
  using assms by (auto simp: validate_firmware_upload_def)

lemma save_accepts:
  "save_community_firmware ext store d = Inr store' \<longleftrightarrow>
     list_all (bindable ext) (bound_values d) \<and> column_value ext (fd_chip_type d) \<noteq> None
     \<and> \<not> list_ex (\<lambda>row. cf_id row = fd_id d) (cs_community store)
     \<and> store' = store\<lparr>cs_community := cs_community store @
          [\<lparr>cf_id = fd_id d, cf_name = fd_name d,
            cf_display_name = column_value ext (fd_display_name d),
            cf_description = column_value ext (fd_description d),
            cf_version = column_value ext (fd_version d),
            cf_chip_type = the (column_value ext (fd_chip_type d)),
            cf_variant = column_value ext (fd_variant d),
            cf_author_name = column_value ext (fd_author_name d),
            cf_author_email = column_value ext (fd_author_email d),
            cf_author_github = column_value ext (fd_author_github d),
            cf_local_path = fd_local_path d, cf_file_size = fd_file_size d,
            cf_md5_hash = fd_md5_hash d, cf_sha256_hash = fd_sha256_hash d,
            cf_features = fd_features d, cf_compatibility = fd_compatibility d,
            cf_gpio_template = fd_gpio_template d, cf_build_info = fd_build_info d,
            cf_source_code_url = column_value ext (fd_source_code_url d),
            cf_documentation_url = column_value ext (fd_documentation_url d),
            cf_license = column_value ext (fd_license d),
            cf_tags = fd_tags d, cf_status = fd_status d\<rparr>]\<rparr>"
  by (auto simp: save_community_firmware_def split: option.splits)


lemma save_row:
  assumes "save_community_firmware ext store d = Inr store'"
  shows "\<exists>row. cs_community store' = cs_community store @ [row] \<and> cs_disk store' = cs_disk store
            \<and> cs_firmware store' = cs_firmware store
            \<and> cf_id row = fd_id d \<and> cf_status row = fd_status d
            \<and> cf_local_path row = fd_local_path d \<and> cf_file_size row = fd_file_size d
            \<and> cf_sha256_hash row = fd_sha256_hash d
            \<and> \<not> list_ex (\<lambda>row. cf_id row = fd_id d) (cs_community store)"
  using assms unfolding save_accepts by simp

lemma data_fields:
  "fd_id (community_firmware_data ext firmware_id local_path file_data secure_name metadata
            author_info chip) = firmware_id"
  "fd_status (community_firmware_data ext firmware_id local_path file_data secure_name metadata
            author_info chip) = ''pending''"
  "fd_local_path (community_firmware_data ext firmware_id local_path file_data secure_name metadata
            author_info chip) = local_path"
  "fd_file_size (community_firmware_data ext firmware_id local_path file_data secure_name metadata
            author_info chip) = length file_data"
  "fd_sha256_hash (community_firmware_data ext firmware_id local_path file_data secure_name metadata
            author_info chip) = sha256_hexdigest ext file_data"
  by (simp_all add: community_firmware_data_def)

lemma upload_valid:
  assumes "validate_firmware_upload ext store file_data filename metadata = Inr chip"
  shows "upload_firmware ext now store file_data filename metadata author_info =
     (case save_community_firmware ext
             (store\<lparr>cs_disk := write_file (cs_disk store)
                 (path_join upload_dir (generate_community_firmware_id ext now filename metadata
                    @ lower (splitext_ext (secure_filename ext filename)))) file_data\<rparr>)
             (community_firmware_data ext (generate_community_firmware_id ext now filename metadata)
                (path_join upload_dir (generate_community_firmware_id ext now filename metadata
                    @ lower (splitext_ext (secure_filename ext filename))))
                file_data (secure_filename ext filename) metadata author_info chip) of
        Inl e \<Rightarrow> (UploadFailed e,
                  store\<lparr>cs_disk := write_file (cs_disk store)
                    (path_join upload_dir (generate_community_firmware_id ext now filename metadata
                       @ lower (splitext_ext (secure_filename ext filename)))) file_data\<rparr>)
      | Inr store'' \<Rightarrow> (Uploaded (generate_community_firmware_id ext now filename metadata), store''))"
  using assms by (simp add: upload_firmware_def Let_def)

lemma upload_Uploaded_row:
  assumes "fst (upload_firmware ext now store file_data filename metadata author) = Uploaded firmware_id"
  shows "\<exists>row. cs_community (snd (upload_firmware ext now store file_data filename metadata author))
               = cs_community store @ [row]
            \<and> \<not> list_ex (\<lambda>r. cf_id r = firmware_id) (cs_community store)
            \<and> cf_id row = firmware_id
            \<and> cf_status row = ''pending'' \<and> cf_file_size row = length file_data
            \<and> cf_sha256_hash row = sha256_hexdigest ext file_data
            \<and> length file_data \<le> max_file_size \<and> 100000 \<le> length file_data"
proof (cases "validate_firmware_upload ext store file_data filename metadata")
  case (Inl reason)
  with assms show ?thesis by (simp add: upload_firmware_def)
next
  case (Inr chip)
  then have size: "length file_data \<le> max_file_size \<and> 100000 \<le> length file_data"
    by (auto simp: validate_firmware_upload_def split: if_splits)
  from assms upload_valid[OF Inr, of now author] obtain store'' where
    s: "save_community_firmware ext
             (store\<lparr>cs_disk := write_file (cs_disk store)
                 (path_join upload_dir (generate_community_firmware_id ext now filename metadata
                    @ lower (splitext_ext (secure_filename ext filename)))) file_data\<rparr>)
             (community_firmware_data ext (generate_community_firmware_id ext now filename metadata)
                (path_join upload_dir (generate_community_firmware_id ext now filename metadata
                    @ lower (splitext_ext (secure_filename ext filename))))
                file_data (secure_filename ext filename) metadata author chip) = Inr store''"
    and u: "upload_firmware ext now store file_data filename metadata author =
              (Uploaded (generate_community_firmware_id ext now filename metadata), store'')"
    by (auto split: sum.splits)
  from u assms have i: "firmware_id = generate_community_firmware_id ext now filename metadata"
    by simp
  from save_row[OF s] u i size show ?thesis
    by (auto simp: data_fields)
qed

lemma uploaded_hash_exists:
  assumes "fst (upload_firmware ext now store file_data filename metadata author) = Uploaded firmware_id"
  shows "firmware_hash_exists (snd (upload_firmware ext now store file_data filename metadata author))
           (sha256_hexdigest ext file_data)"
proof -
  from upload_Uploaded_row[OF assms] obtain row where
    "cs_community (snd (upload_firmware ext now store file_data filename metadata author))
       = cs_community store @ [row]" "cf_sha256_hash row = sha256_hexdigest ext file_data"
    by blast
  then show ?thesis by (simp add: firmware_hash_exists_def)
qed

lemma sample_data_accepted:
  "list_all (bindable sample_externals)
     (bound_values (community_firmware_data sample_externals firmware_id local_path file_data
        secure_name no_metadata anonymous chip))
   \<and> column_value sample_externals
        (fd_chip_type (community_firmware_data sample_externals firmware_id local_path file_data
           secure_name no_metadata anonymous chip)) = Some chip"
  by (simp add: bound_values_def community_firmware_data_def dict_get_def no_metadata_def
        anonymous_def bindable_def column_value_def sample_externals_def)

lemma sample_id:
  "generate_community_firmware_id sample_externals now filename no_metadata
     = ''community_'' @ filename @ ''_custom_'' @ now"
  by (simp add: generate_community_firmware_id_def sample_externals_def decode_encode
        no_metadata_def dict_get_def format_value_def)

lemma sample_upload:
  assumes "validate_firmware_upload sample_externals store file_data filename no_metadata = Inr chip"
      and "\<not> list_ex (\<lambda>row. cf_id row = ''community_'' @ filename @ ''_custom_'' @ now)
                 (cs_community store)"
  shows "fst (upload_firmware sample_externals now store file_data filename no_metadata anonymous)
           = Uploaded (''community_'' @ filename @ ''_custom_'' @ now)"
proof -
  have "\<exists>s. save_community_firmware sample_externals
             (store\<lparr>cs_disk := write_file (cs_disk store)
                 (path_join upload_dir (generate_community_firmware_id sample_externals now filename no_metadata
                    @ lower (splitext_ext (secure_filename sample_externals filename)))) file_data\<rparr>)
             (community_firmware_data sample_externals
                (generate_community_firmware_id sample_externals now filename no_metadata)
                (path_join upload_dir (generate_community_firmware_id sample_externals now filename no_metadata
                    @ lower (splitext_ext (secure_filename sample_externals filename))))
                file_data (secure_filename sample_externals filename) no_metadata anonymous chip) = Inr s"
    using assms(2) sample_data_accepted
    by (simp add: save_accepts data_fields sample_id)
  then show ?thesis
    using upload_valid[OF assms(1), of now anonymous] by (auto simp: sample_id)
qed

lemma sample_first_upload:
  "fst (upload_firmware sample_externals ''2024-01-01T00:00:00'' empty_store (esp32_image 99996)
          ''fw.bin'' no_metadata anonymous)
   = Uploaded ''community_fw.bin_custom_2024-01-01T00:00:00''"
proof -
  have "validate_firmware_upload sample_externals empty_store (esp32_image 99996) ''fw.bin''
          no_metadata = Inr ''ESP32''"
    by (simp add: validate_esp32_image max_file_size_def firmware_hash_exists_def empty_store_def)
  from sample_upload[OF this, of "''2024-01-01T00:00:00''"] show ?thesis
    by (simp add: empty_store_def)
qed

lemma review_rejects_large:
  "ri_file_size fw = Some n \<Longrightarrow> 8 * 1024 * 1024 < n \<Longrightarrow>
   automated_firmware_review approved_count fw = review_reject ''Invalid file size''"
  by (simp add: automated_firmware_review_def)

lemma upload_sample_fst:
  "fst (upload_firmware sample_externals ''2024-01-01T00:00:00'' empty_store (esp32_image 8999996)
          ''fw.bin'' no_metadata anonymous)
   = Uploaded ''community_fw.bin_custom_2024-01-01T00:00:00''"
proof -
  have "validate_firmware_upload sample_externals empty_store (esp32_image 8999996) ''fw.bin''
          no_metadata = Inr ''ESP32''"
    by (simp add: validate_esp32_image max_file_size_def firmware_hash_exists_def empty_store_def)
  from sample_upload[OF this, of "''2024-01-01T00:00:00''"] show ?thesis
    by (simp add: empty_store_def)
qed

subsection \<open>Catalog updates: auxiliary facts\<close>

lemma parse_tasmota32_sensors:
  "parse_firmware_filename ''tasmota32-sensors.bin'' =
     \<lparr>info_chip_type = ''ESP32'', info_variant = ''sensors'',
      info_features = [''All Sensors'', ''DHT22'', ''DS18B20'', ''BMP280''],
      info_compatibility = []\<rparr>"
  by (simp add: parse_firmware_filename_def lower_def lower_char_def)

lemma endswith_bin: "endswith ''tasmota32-sensors.bin'' ''.bin''"
  by (simp add: endswith_def suffix_def)

lemma releases_in_url: "py_in ''releases'' ''https://api.github.com/repos/arendst/Tasmota/releases''"
  by simp

lemma github_releases_configured:
  "map_of sources ''github_releases'' = Some github_releases_config"
  by (simp add: sources_def github_releases_config_def)

lemma insert_new_row:
  "\<not> firmware_exists catalog (fw_id row) \<Longrightarrow> insert_or_replace catalog row = catalog @ [row]"
  by (induction catalog) (auto simp: insert_or_replace_def firmware_exists_def)

lemma known_Cons: "known catalog (u # us) catalog' \<Longrightarrow> known catalog us catalog'"
  by (simp add: known_def)


























subsection \<open>The cache: files, paths and the invariant\<close>

lemma map_of_remove_file: "map_of (remove_file d p) q = (if q = p then None else map_of d q)"
  by (induction d) (auto simp: remove_file_def)

lemma map_of_write_file: "map_of (write_file d p c) q = (if q = p then Some c else map_of d q)"
  by (simp add: write_file_def map_of_remove_file)

lemma map_of_move_file:
  "map_of d src = Some c \<Longrightarrow> src \<noteq> dst \<Longrightarrow>
   map_of (move_file d src dst) q = (if q = dst then Some c else if q = src then None else map_of d q)"
  by (simp add: move_file_def map_of_write_file map_of_remove_file)

lemma set_remove_file: "set (remove_file d p) = {f \<in> set d. fst f \<noteq> p}"
  by (auto simp: remove_file_def)

lemma distinct_remove_file: "distinct (map fst d) \<Longrightarrow> distinct (map fst (remove_file d p))"
  by (simp add: remove_file_def distinct_map_filter)

lemma distinct_write_file: "distinct (map fst d) \<Longrightarrow> distinct (map fst (write_file d p c))"
  by (auto simp: write_file_def distinct_remove_file set_remove_file)

lemma distinct_move_file: "distinct (map fst d) \<Longrightarrow> distinct (map fst (move_file d src dst))"
  by (auto simp: move_file_def distinct_write_file distinct_remove_file split: option.splits)

lemma cache_path_valid:
  "valid_firmware_id i \<Longrightarrow> cache_path i = cache_dir @ ''/'' @ i @ ''.bin''"
  by (cases i) (auto simp: cache_path_def path_join_def valid_firmware_id_def cache_dir_def
        endswith_def suffix_to_prefix)

lemma in_dir_cache_path: "valid_firmware_id i \<Longrightarrow> in_dir cache_dir (cache_path i)"
  by (simp add: cache_path_valid in_dir_def)

lemma cache_path_inj:
  "valid_firmware_id i \<Longrightarrow> valid_firmware_id j \<Longrightarrow> cache_path i = cache_path j \<longleftrightarrow> i = j"
  by (auto simp: cache_path_valid)

lemma opt_case_ex: "(case m of None \<Rightarrow> False | Some c \<Rightarrow> P c) = (\<exists>c. m = Some c \<and> P c)"
  by (cases m) auto

lemma cache_wf_iff:
  "cache_wf s \<longleftrightarrow>
     distinct (map fst (files s)) \<and> distinct (map ce_firmware_id (firmware_cache s))
     \<and> (\<forall>e\<in>set (firmware_cache s). ce_verified e \<and> valid_firmware_id (ce_firmware_id e)
            \<and> ce_local_path e = cache_path (ce_firmware_id e)
            \<and> (\<exists>content. map_of (files s) (cache_path (ce_firmware_id e)) = Some content
                    \<and> length content = ce_file_size e))
     \<and> (\<forall>p. in_dir cache_dir p \<longrightarrow> map_of (files s) p \<noteq> None \<longrightarrow>
            (\<exists>e\<in>set (firmware_cache s). p = cache_path (ce_firmware_id e)))"
  (is "?l \<longleftrightarrow> ?r")
proof
  assume l: ?l
  then have d: "distinct (map fst (files s))" "distinct (map ce_firmware_id (firmware_cache s))"
    and rows': "\<forall>e\<in>set (firmware_cache s). ce_verified e \<and> valid_firmware_id (ce_firmware_id e)
            \<and> ce_local_path e = cache_path (ce_firmware_id e)
            \<and> (\<exists>content. map_of (files s) (ce_local_path e) = Some content
                    \<and> length content = ce_file_size e)"
    and orphans: "\<forall>f\<in>set (files s). in_dir cache_dir (fst f) \<longrightarrow>
            (\<exists>e\<in>set (firmware_cache s). ce_local_path e = fst f)"
    unfolding cache_wf_def list_all_iff list_ex_iff opt_case_ex by blast+
  have rows: "\<forall>e\<in>set (firmware_cache s). ce_verified e \<and> valid_firmware_id (ce_firmware_id e)
            \<and> ce_local_path e = cache_path (ce_firmware_id e)
            \<and> (\<exists>content. map_of (files s) (cache_path (ce_firmware_id e)) = Some content
                    \<and> length content = ce_file_size e)"
    using rows' by fastforce
  have "\<exists>e\<in>set (firmware_cache s). p = cache_path (ce_firmware_id e)"
    if "in_dir cache_dir p" "map_of (files s) p \<noteq> None" for p
  proof -
    from that(2) obtain c where "(p, c) \<in> set (files s)"
      by (auto dest: map_of_SomeD)
    with orphans that(1) obtain e where "e \<in> set (firmware_cache s)" "ce_local_path e = p"
      by force
    with rows show ?thesis by force
  qed
  with d rows show ?r by blast
next
  assume r: ?r
  then have rows: "\<forall>e\<in>set (firmware_cache s). ce_verified e \<and> valid_firmware_id (ce_firmware_id e)
            \<and> ce_local_path e = cache_path (ce_firmware_id e)
            \<and> (\<exists>content. map_of (files s) (cache_path (ce_firmware_id e)) = Some content
                    \<and> length content = ce_file_size e)" by blast
  have "\<exists>e\<in>set (firmware_cache s). ce_local_path e = fst f"
    if "f \<in> set (files s)" "in_dir cache_dir (fst f)" for f
  proof -
    from that(1) have "map_of (files s) (fst f) \<noteq> None"
      by (simp add: map_of_eq_None_iff)
    with r that(2) obtain e where "e \<in> set (firmware_cache s)" "fst f = cache_path (ce_firmware_id e)"
      by blast
    with rows show ?thesis by force
  qed
  moreover have "\<forall>e\<in>set (firmware_cache s). ce_verified e \<and> valid_firmware_id (ce_firmware_id e)
            \<and> ce_local_path e = cache_path (ce_firmware_id e)
            \<and> (\<exists>content. map_of (files s) (ce_local_path e) = Some content
                    \<and> length content = ce_file_size e)"
    using rows by fastforce
  ultimately show ?l
    unfolding cache_wf_def list_all_iff list_ex_iff opt_case_ex using r by blast
qed

lemma cache_wfI:
  assumes "distinct (map fst d)" and "distinct (map ce_firmware_id rows)"
      and "\<And>e. e \<in> set rows \<Longrightarrow> ce_verified e \<and> valid_firmware_id (ce_firmware_id e)
            \<and> ce_local_path e = cache_path (ce_firmware_id e)
            \<and> (\<exists>content. map_of d (cache_path (ce_firmware_id e)) = Some content
                    \<and> length content = ce_file_size e)"
      and "\<And>p. in_dir cache_dir p \<Longrightarrow> map_of d p \<noteq> None \<Longrightarrow>
            \<exists>e\<in>set rows. p = cache_path (ce_firmware_id e)"
      and "firmware_cache s = rows" and "files s = d"
  shows "cache_wf s"
  unfolding cache_wf_iff assms(5,6) using assms(1-4) by blast

lemma cache_wf_firmware_db [simp]: "cache_wf (s\<lparr>firmware_db := x\<rparr>) = cache_wf s"
  by (simp add: cache_wf_def)

lemma cache_wf_remove_step:
  assumes "cache_wf s" and "distinct (map fst d')"
      and "\<And>q. in_dir cache_dir q \<Longrightarrow> q \<noteq> cache_path i \<Longrightarrow> map_of d' q = map_of (files s) q"
      and "valid_firmware_id i" and "map_of d' (cache_path i) = None"
      and "firmware_cache s' = filter (\<lambda>e. ce_firmware_id e \<noteq> i) (firmware_cache s)"
      and "files s' = d'"
  shows "cache_wf s'"
proof -
  note w = assms(1)[unfolded cache_wf_iff]
  have rows: "ce_verified e \<and> valid_firmware_id (ce_firmware_id e)
            \<and> ce_local_path e = cache_path (ce_firmware_id e)
            \<and> (\<exists>content. map_of d' (cache_path (ce_firmware_id e)) = Some content
                    \<and> length content = ce_file_size e)"
    if "e \<in> set (firmware_cache s)" "ce_firmware_id e \<noteq> i" for e
  proof -
    from w that(1) have e: "ce_verified e" "valid_firmware_id (ce_firmware_id e)"
      "ce_local_path e = cache_path (ce_firmware_id e)"
      "\<exists>content. map_of (files s) (cache_path (ce_firmware_id e)) = Some content
                    \<and> length content = ce_file_size e"
      by blast+
    from e(2) assms(4) that(2) have "cache_path (ce_firmware_id e) \<noteq> cache_path i"
      by (simp add: cache_path_inj)
    with assms(3)[of "cache_path (ce_firmware_id e)"] e(2)
    have "map_of d' (cache_path (ce_firmware_id e)) = map_of (files s) (cache_path (ce_firmware_id e))"
      by (simp add: in_dir_cache_path)
    with e show ?thesis by simp
  qed
  have orphans: "\<exists>e\<in>set (firmware_cache s). ce_firmware_id e \<noteq> i \<and> p = cache_path (ce_firmware_id e)"
    if "in_dir cache_dir p" "map_of d' p \<noteq> None" for p
  proof -
    from that(2) assms(5) have n: "p \<noteq> cache_path i" by auto
    with assms(3)[OF that(1)] that(2) have "map_of (files s) p \<noteq> None" by simp
    with w that(1) obtain e where "e \<in> set (firmware_cache s)" "p = cache_path (ce_firmware_id e)"
      by blast
    with n show ?thesis by auto
  qed
  from w have "distinct (map ce_firmware_id (filter (\<lambda>e. ce_firmware_id e \<noteq> i) (firmware_cache s)))"
    by (simp add: distinct_map_filter)
  then show ?thesis
  proof (rule cache_wfI[OF assms(2) _ _ _ assms(6,7)])
    fix e assume "e \<in> set (filter (\<lambda>e. ce_firmware_id e \<noteq> i) (firmware_cache s))"
    then show "ce_verified e \<and> valid_firmware_id (ce_firmware_id e)
            \<and> ce_local_path e = cache_path (ce_firmware_id e)
            \<and> (\<exists>content. map_of d' (cache_path (ce_firmware_id e)) = Some content
                    \<and> length content = ce_file_size e)"
      using rows by simp
  next
    fix p assume "in_dir cache_dir p" "map_of d' p \<noteq> None"
    from orphans[OF this]
    show "\<exists>e\<in>set (filter (\<lambda>e. ce_firmware_id e \<noteq> i) (firmware_cache s)).
                 p = cache_path (ce_firmware_id e)"
      by auto
  qed
qed

lemma cache_wf_add_step:
  assumes "cache_wf s" and "distinct (map fst d')"
      and "\<And>q. in_dir cache_dir q \<Longrightarrow> q \<noteq> cache_path i \<Longrightarrow> map_of d' q = map_of (files s) q"
      and "valid_firmware_id i" and "map_of d' (cache_path i) = Some content"
      and "firmware_cache s' = filter (\<lambda>e. ce_firmware_id e \<noteq> i) (firmware_cache s) @
                      [\<lparr>ce_firmware_id = i, ce_local_path = cache_path i, ce_download_url = url,
                        ce_file_size = length content, ce_md5_hash = m, ce_sha256_hash = h,
                        ce_download_count = 0, ce_last_accessed = now, ce_verified = True\<rparr>]"
      and "files s' = d'"
  shows "cache_wf s'"
proof -
  note w = assms(1)[unfolded cache_wf_iff]
  have rows: "ce_verified e \<and> valid_firmware_id (ce_firmware_id e)
            \<and> ce_local_path e = cache_path (ce_firmware_id e)
            \<and> (\<exists>content. map_of d' (cache_path (ce_firmware_id e)) = Some content
                    \<and> length content = ce_file_size e)"
    if "e \<in> set (firmware_cache s)" "ce_firmware_id e \<noteq> i" for e
  proof -
    from w that(1) have e: "ce_verified e" "valid_firmware_id (ce_firmware_id e)"
      "ce_local_path e = cache_path (ce_firmware_id e)"
      "\<exists>content. map_of (files s) (cache_path (ce_firmware_id e)) = Some content
                    \<and> length content = ce_file_size e"
      by blast+
    from e(2) assms(4) that(2) have "cache_path (ce_firmware_id e) \<noteq> cache_path i"
      by (simp add: cache_path_inj)
    with assms(3)[of "cache_path (ce_firmware_id e)"] e(2)
    have "map_of d' (cache_path (ce_firmware_id e)) = map_of (files s) (cache_path (ce_firmware_id e))"
      by (simp add: in_dir_cache_path)
    with e show ?thesis by simp
  qed
  have orphans: "p = cache_path i
      \<or> (\<exists>e\<in>set (firmware_cache s). ce_firmware_id e \<noteq> i \<and> p = cache_path (ce_firmware_id e))"
    if "in_dir cache_dir p" "map_of d' p \<noteq> None" for p
  proof (cases "p = cache_path i")
    case True
    then show ?thesis by simp
  next
    case False
    with assms(3)[OF that(1)] that(2) have "map_of (files s) p \<noteq> None" by simp
    with w that(1) obtain e where "e \<in> set (firmware_cache s)" "p = cache_path (ce_firmware_id e)"
      by blast
    with False show ?thesis by auto
  qed
  let ?new = "\<lparr>ce_firmware_id = i, ce_local_path = cache_path i, ce_download_url = url,
                        ce_file_size = length content, ce_md5_hash = m, ce_sha256_hash = h,
                        ce_download_count = 0, ce_last_accessed = now, ce_verified = True\<rparr>"
  from w have "distinct (map ce_firmware_id (filter (\<lambda>e. ce_firmware_id e \<noteq> i) (firmware_cache s)))"
    by (simp add: distinct_map_filter)
  then have "distinct (map ce_firmware_id (filter (\<lambda>e. ce_firmware_id e \<noteq> i) (firmware_cache s) @ [?new]))"
    by auto
  then show ?thesis
  proof (rule cache_wfI[OF assms(2) _ _ _ assms(6,7)])
    fix e assume "e \<in> set (filter (\<lambda>e. ce_firmware_id e \<noteq> i) (firmware_cache s) @ [?new])"
    then consider "e \<in> set (firmware_cache s)" "ce_firmware_id e \<noteq> i" | "e = ?new" by auto
    then show "ce_verified e \<and> valid_firmware_id (ce_firmware_id e)
            \<and> ce_local_path e = cache_path (ce_firmware_id e)
            \<and> (\<exists>content. map_of d' (cache_path (ce_firmware_id e)) = Some content
                    \<and> length content = ce_file_size e)"
    proof cases
      case 1
      then show ?thesis by (rule rows)
    next
      case 2
      then show ?thesis using assms(4,5) by simp
    qed
  next
    fix p assume "in_dir cache_dir p" "map_of d' p \<noteq> None"
    from orphans[OF this]
    show "\<exists>e\<in>set (filter (\<lambda>e. ce_firmware_id e \<noteq> i) (firmware_cache s) @ [?new]).
                 p = cache_path (ce_firmware_id e)"
      by auto
  qed
qed

lemma find_SomeD: "find P xs = Some x \<Longrightarrow> x \<in> set xs \<and> P x"
  by (induction xs) (auto split: if_splits)

lemma get_cached_wf:
  assumes "cache_wf s"
  shows "get_cached_firmware_path s i =
           (if i \<in> ce_firmware_id ` set (firmware_cache s) then Some (cache_path i) else None, s)"
proof (cases "find (\<lambda>e. ce_firmware_id e = i \<and> ce_verified e) (firmware_cache s)")
  case None
  then have "\<forall>e\<in>set (firmware_cache s). \<not> (ce_firmware_id e = i \<and> ce_verified e)"
    by (simp add: find_None_iff)
  with assms have "i \<notin> ce_firmware_id ` set (firmware_cache s)"
    unfolding cache_wf_iff by auto
  with None show ?thesis by (simp add: get_cached_firmware_path_def)
next
  case (Some row)
  then have r: "row \<in> set (firmware_cache s)" "ce_firmware_id row = i"
    by (auto dest: find_SomeD)
  with assms obtain content where "ce_local_path row = cache_path i"
    "map_of (files s) (cache_path i) = Some content"
    unfolding cache_wf_iff by blast
  then have "ce_local_path row = cache_path i" "path_exists (files s) (cache_path i)"
    by (simp_all add: path_exists_def)
  with Some r show ?thesis by (simp add: get_cached_firmware_path_def image_iff) blast
qed

lemma update_access_time_wf:
  assumes "cache_wf s"
  shows "cache_wf (update_access_time s i now)"
proof -
  define f :: "cache_entry \<Rightarrow> cache_entry" where "f = (\<lambda>e. if ce_firmware_id e = i
                   then e\<lparr>ce_last_accessed := now, ce_download_count := ce_download_count e + 1\<rparr>
                   else e)"
  have f: "ce_firmware_id (f e) = ce_firmware_id e" "ce_verified (f e) = ce_verified e"
    "ce_local_path (f e) = ce_local_path e" "ce_file_size (f e) = ce_file_size e" for e
    by (simp_all add: f_def)
  have u: "update_access_time s i now = s\<lparr>firmware_cache := map f (firmware_cache s)\<rparr>"
    by (simp add: update_access_time_def f_def)
  have m: "map ce_firmware_id (map f (firmware_cache s)) = map ce_firmware_id (firmware_cache s)"
    by (simp add: f comp_def)
  note w = assms[unfolded cache_wf_iff]
  have "\<exists>e\<in>set (map f (firmware_cache s)). p = cache_path (ce_firmware_id e)"
    if "in_dir cache_dir p" "map_of (files s) p \<noteq> None" for p
  proof -
    from w that obtain e where "e \<in> set (firmware_cache s)" "p = cache_path (ce_firmware_id e)"
      by blast
    then have "f e \<in> set (map f (firmware_cache s))" "p = cache_path (ce_firmware_id (f e))"
      by (simp_all add: f)
    then show ?thesis by blast
  qed
  moreover have "ce_verified e' \<and> valid_firmware_id (ce_firmware_id e')
            \<and> ce_local_path e' = cache_path (ce_firmware_id e')
            \<and> (\<exists>content. map_of (files s) (cache_path (ce_firmware_id e')) = Some content
                    \<and> length content = ce_file_size e')"
    if "e' \<in> set (map f (firmware_cache s))" for e'
  proof -
    from that obtain e where e: "e \<in> set (firmware_cache s)" "e' = f e" by auto
    with w have "ce_verified e \<and> valid_firmware_id (ce_firmware_id e)
            \<and> ce_local_path e = cache_path (ce_firmware_id e)
            \<and> (\<exists>content. map_of (files s) (cache_path (ce_firmware_id e)) = Some content
                    \<and> length content = ce_file_size e)"
      by blast
    then show ?thesis unfolding e(2) f .
  qed
  moreover have "distinct (map ce_firmware_id (map f (firmware_cache s)))"
    unfolding m using w by blast
  moreover have "distinct (map fst (files s))"
    using w by blast
  ultimately show ?thesis
    unfolding u
    by (intro cache_wfI[where rows = "map f (firmware_cache s)" and d = "files s"]) simp_all
qed

lemma cache_path_not_empty: "valid_firmware_id i \<Longrightarrow> cache_path i \<noteq> []"
  by (simp add: cache_path_valid cache_dir_def)

lemma verify_iff:
  "map_of d p = Some content \<Longrightarrow>
   verify_firmware_file d p \<longleftrightarrow> 100000 \<le> length content \<and> hd content = 0xE9"
  by (cases content) (auto simp: verify_firmware_file_def)

lemma remove_file_twice: "remove_file (remove_file d p) p = remove_file d p"
  by (simp add: remove_file_def)

lemma download_file_files:
  "files (download_file s tmp outcome) = (tmp, downloaded_bytes outcome) # remove_file (files s) tmp"
  by (simp add: download_file_def write_file_def remove_file_def)

lemma download_miss:
  assumes "cache_wf s" and "valid_firmware_id i" and "\<not> in_dir cache_dir tmp"
      and "i \<notin> ce_firmware_id ` set (firmware_cache s)"
  shows "download_and_cache_firmware s i url tmp (DownloadFailed written) now =
           (None, s\<lparr>files := remove_file (files s) tmp\<rparr>)"
    and "download_and_cache_firmware s i url tmp (Downloaded content m h) now =
           (if 100000 \<le> length content \<and> hd content = 0xE9 then
              (Some (cache_path i),
               update_firmware_local_path
                 (add_to_cache_db
                    (s\<lparr>files := (cache_path i, content)
                          # remove_file (remove_file (files s) tmp) (cache_path i)\<rparr>)
                    i (cache_path i) url (length content) m h now)
                 i (cache_path i))
            else (None, s\<lparr>files := remove_file (remove_file (files s) tmp) (cache_path i)\<rparr>))"
proof -
  from assms(2,3) have n: "tmp \<noteq> cache_path i"
    using in_dir_cache_path by auto
  have g: "get_cached_firmware_path s i = (None, s)"
    using assms(1,4) by (simp add: get_cached_wf)
  show "download_and_cache_firmware s i url tmp (DownloadFailed written) now =
           (None, s\<lparr>files := remove_file (files s) tmp\<rparr>)"
    by (simp add: download_and_cache_firmware_def g cache_hit_def download_file_files
          path_exists_def Let_def)
       (simp add: remove_file_def download_file_def)
  have m: "files (move_to_cache (download_file s tmp (Downloaded content m h)) tmp i)
           = (cache_path i, content) # remove_file (remove_file (files s) tmp) (cache_path i)"
    using n by (simp add: move_to_cache_def download_file_files move_file_def write_file_def
          downloaded_bytes_def) (simp add: remove_file_def)
  have v: "verify_firmware_file
             ((cache_path i, content) # remove_file (remove_file (files s) tmp) (cache_path i))
             (cache_path i) \<longleftrightarrow> 100000 \<le> length content \<and> hd content = 0xE9"
    by (rule verify_iff) simp
  show "download_and_cache_firmware s i url tmp (Downloaded content m h) now =
           (if 100000 \<le> length content \<and> hd content = 0xE9 then
              (Some (cache_path i),
               update_firmware_local_path
                 (add_to_cache_db
                    (s\<lparr>files := (cache_path i, content)
                          # remove_file (remove_file (files s) tmp) (cache_path i)\<rparr>)
                    i (cache_path i) url (length content) m h now)
                 i (cache_path i))
            else (None, s\<lparr>files := remove_file (remove_file (files s) tmp) (cache_path i)\<rparr>))"
  proof -
    have "move_to_cache (download_file s tmp (Downloaded content m h)) tmp i
            = s\<lparr>files := files (move_to_cache (download_file s tmp (Downloaded content m h)) tmp i)\<rparr>"
      by (simp add: move_to_cache_def download_file_def)
    then have ms: "move_to_cache (download_file s tmp (Downloaded content m h)) tmp i
            = s\<lparr>files := (cache_path i, content)
                          # remove_file (remove_file (files s) tmp) (cache_path i)\<rparr>"
      unfolding m .
    show ?thesis
      unfolding download_and_cache_firmware_def g
      by (simp add: cache_hit_def Let_def ms v) (simp add: remove_file_def)
  qed
qed

lemma download_hit:
  assumes "cache_wf s" and "valid_firmware_id i"
      and "i \<in> ce_firmware_id ` set (firmware_cache s)"
  shows "download_and_cache_firmware s i url tmp outcome now =
           (Some (cache_path i), update_access_time s i now)"
proof -
  from assms(1,3) obtain content where "map_of (files s) (cache_path i) = Some content"
    unfolding cache_wf_iff by blast
  then have "path_exists (files s) (cache_path i)" by (simp add: path_exists_def)
  with assms show ?thesis
    by (simp add: download_and_cache_firmware_def get_cached_wf cache_hit_def cache_path_not_empty)
qed

lemma map_of_removed_twice:
  "map_of (remove_file (remove_file d tmp) p) q =
     (if q = p \<or> q = tmp then None else map_of d q)"
  by (simp add: map_of_remove_file)

lemma no_row_no_file:
  assumes "cache_wf s" and "valid_firmware_id i"
      and "i \<notin> ce_firmware_id ` set (firmware_cache s)"
  shows "map_of (files s) (cache_path i) = None"
proof (rule ccontr)
  assume "map_of (files s) (cache_path i) \<noteq> None"
  with assms(1,2) obtain e where e: "e \<in> set (firmware_cache s)"
    "cache_path i = cache_path (ce_firmware_id e)"
    unfolding cache_wf_iff using in_dir_cache_path by blast
  with assms(1) have "valid_firmware_id (ce_firmware_id e)"
    unfolding cache_wf_iff by blast
  with e(2) assms(2) have "i = ce_firmware_id e" by (simp add: cache_path_inj)
  with e(1) assms(3) show False by blast
qed

lemma download_wf:
  assumes "cache_wf s" and "valid_firmware_id i" and "\<not> in_dir cache_dir tmp"
  shows "cache_wf (snd (download_and_cache_firmware s i url tmp outcome now))"
proof (cases "i \<in> ce_firmware_id ` set (firmware_cache s)")
  case True
  with assms show ?thesis by (simp add: download_hit update_access_time_wf)
next
  case False
  then have same: "filter (\<lambda>e. ce_firmware_id e \<noteq> i) (firmware_cache s) = firmware_cache s"
    by (auto simp: filter_id_conv)
  from assms(1) have d: "distinct (map fst (files s))"
    unfolding cache_wf_iff by blast
  from assms(2,3) have n: "tmp \<noteq> cache_path i"
    using in_dir_cache_path by auto
  show ?thesis
  proof (cases outcome)
    case (DownloadFailed written)
    show ?thesis
    proof (rule cache_wf_remove_step[OF assms(1)])
      show "distinct (map fst (remove_file (files s) tmp))"
        using d by (rule distinct_remove_file)
      show "map_of (remove_file (files s) tmp) q = map_of (files s) q" if "in_dir cache_dir q" for q
        using that assms(3) by (auto simp: map_of_remove_file)
      show "valid_firmware_id i" by (rule assms(2))
      show "map_of (remove_file (files s) tmp) (cache_path i) = None"
        using no_row_no_file[OF assms(1,2) False] by (simp add: map_of_remove_file)
      show "firmware_cache (snd (download_and_cache_firmware s i url tmp outcome now))
              = filter (\<lambda>e. ce_firmware_id e \<noteq> i) (firmware_cache s)"
        unfolding same DownloadFailed download_miss(1)[OF assms False] by simp
      show "files (snd (download_and_cache_firmware s i url tmp outcome now))
              = remove_file (files s) tmp"
        unfolding DownloadFailed download_miss(1)[OF assms False] by simp
    qed
  next
    case (Downloaded content m h)
    let ?d = "remove_file (remove_file (files s) tmp) (cache_path i)"
    have dd: "distinct (map fst ?d)"
      using d by (intro distinct_remove_file)
    have agree: "map_of ?d q = map_of (files s) q" if "in_dir cache_dir q" "q \<noteq> cache_path i" for q
      using that assms(3) by (auto simp: map_of_remove_file)
    show ?thesis
    proof (cases "100000 \<le> length content \<and> hd content = 0xE9")
      case True
      show ?thesis
      proof (rule cache_wf_add_step[OF assms(1)])
        show "distinct (map fst ((cache_path i, content) # ?d))"
          using dd by (auto simp: set_remove_file)
        show "map_of ((cache_path i, content) # ?d) q = map_of (files s) q"
          if "in_dir cache_dir q" "q \<noteq> cache_path i" for q
          using agree[OF that] that(2) by simp
        show "valid_firmware_id i" by (rule assms(2))
        show "map_of ((cache_path i, content) # ?d) (cache_path i) = Some content" by simp
        show "firmware_cache (snd (download_and_cache_firmware s i url tmp outcome now)) =
                filter (\<lambda>e. ce_firmware_id e \<noteq> i) (firmware_cache s) @
                      [\<lparr>ce_firmware_id = i, ce_local_path = cache_path i, ce_download_url = url,
                        ce_file_size = length content, ce_md5_hash = m, ce_sha256_hash = h,
                        ce_download_count = 0, ce_last_accessed = now, ce_verified = True\<rparr>]"
          unfolding Downloaded download_miss(2)[OF assms False] using True
          by (simp add: add_to_cache_db_def update_firmware_local_path_def)
        show "files (snd (download_and_cache_firmware s i url tmp outcome now))
                = (cache_path i, content) # ?d"
          unfolding Downloaded download_miss(2)[OF assms False] using True
          by (simp add: add_to_cache_db_def update_firmware_local_path_def)
      qed
    next
      case False
      show ?thesis
      proof (rule cache_wf_remove_step[OF assms(1)])
        show "distinct (map fst ?d)" by (rule dd)
        show "map_of ?d q = map_of (files s) q" if "in_dir cache_dir q" "q \<noteq> cache_path i" for q
          using that by (rule agree)
        show "valid_firmware_id i" by (rule assms(2))
        show "map_of ?d (cache_path i) = None" by (simp add: map_of_remove_file)
        show "firmware_cache (snd (download_and_cache_firmware s i url tmp outcome now))
                = filter (\<lambda>e. ce_firmware_id e \<noteq> i) (firmware_cache s)"
          unfolding same Downloaded
            download_miss(2)[OF assms \<open>i \<notin> ce_firmware_id ` set (firmware_cache s)\<close>]
          using False by auto
        show "files (snd (download_and_cache_firmware s i url tmp outcome now)) = ?d"
          unfolding Downloaded
            download_miss(2)[OF assms \<open>i \<notin> ce_firmware_id ` set (firmware_cache s)\<close>]
          using False by auto
      qed
    qed
  qed
qed

lemma remove_file_absent: "p \<notin> fst ` set d \<Longrightarrow> remove_file d p = d"
  by (auto simp: remove_file_def filter_id_conv)

lemma get_cache_size_Cons:
  "get_cache_size (f # d) = (if in_dir cache_dir (fst f) then int (length (snd f)) else 0) + get_cache_size d"
  by (simp add: get_cache_size_def)

lemma remove_file_Cons:
  "remove_file (f # d) p = (if fst f = p then remove_file d p else f # remove_file d p)"
  by (simp add: remove_file_def)

lemma get_cache_size_remove:
  "distinct (map fst d) \<Longrightarrow> map_of d p = Some content \<Longrightarrow> in_dir cache_dir p \<Longrightarrow>
   get_cache_size (remove_file d p) = get_cache_size d - int (length content)"
proof (induction d)
  case Nil
  then show ?case by simp
next
  case (Cons f d)
  show ?case
  proof (cases "fst f = p")
    case True
    with Cons.prems(1) have "p \<notin> fst ` set d" by auto
    then have "remove_file d p = d" by (rule remove_file_absent)
    moreover from True Cons.prems(2) have "snd f = content" by (cases f) simp
    ultimately show ?thesis
      using True Cons.prems(3) by (simp add: remove_file_Cons get_cache_size_Cons)
  next
    case False
    with Cons.prems have "get_cache_size (remove_file d p) = get_cache_size d - int (length content)"
      by (intro Cons.IH) (auto split: if_splits)
    with False show ?thesis
      by (simp add: remove_file_Cons get_cache_size_Cons)
  qed
qed

lemma remove_cached_wf:
  assumes "cache_wf s" and "c \<in> set (firmware_cache s)"
  shows "cache_wf (remove_cached s c)"
    and "firmware_cache (remove_cached s c)
           = filter (\<lambda>e. ce_firmware_id e \<noteq> ce_firmware_id c) (firmware_cache s)"
    and "files (remove_cached s c) = remove_file (files s) (cache_path (ce_firmware_id c))"
    and "get_cache_size (files (remove_cached s c)) = get_cache_size (files s) - int (ce_file_size c)"
proof -
  from assms obtain content where c: "valid_firmware_id (ce_firmware_id c)"
    "ce_local_path c = cache_path (ce_firmware_id c)"
    "map_of (files s) (cache_path (ce_firmware_id c)) = Some content"
    "length content = ce_file_size c"
    and d: "distinct (map fst (files s))"
    unfolding cache_wf_iff by blast
  from c have e: "path_exists (files s) (ce_local_path c)"
    by (simp add: path_exists_def)
  show r: "firmware_cache (remove_cached s c)
           = filter (\<lambda>e. ce_firmware_id e \<noteq> ce_firmware_id c) (firmware_cache s)"
    by (simp add: remove_cached_def remove_from_cache_db_def)
  show f: "files (remove_cached s c) = remove_file (files s) (cache_path (ce_firmware_id c))"
    using e c(2) by (simp add: remove_cached_def remove_from_cache_db_def)
  show "get_cache_size (files (remove_cached s c)) = get_cache_size (files s) - int (ce_file_size c)"
    unfolding f using get_cache_size_remove[OF d c(3)] c(1,4) by (simp add: in_dir_cache_path)
  show "cache_wf (remove_cached s c)"
  proof (rule cache_wf_remove_step[OF assms(1) _ _ c(1) _ r f])
    show "distinct (map fst (remove_file (files s) (cache_path (ce_firmware_id c))))"
      using d by (rule distinct_remove_file)
    show "map_of (remove_file (files s) (cache_path (ce_firmware_id c))) q = map_of (files s) q"
      if "q \<noteq> cache_path (ce_firmware_id c)" for q
      using that by (simp add: map_of_remove_file)
    show "map_of (remove_file (files s) (cache_path (ce_firmware_id c))) (cache_path (ce_firmware_id c)) = None"
      by (simp add: map_of_remove_file)
  qed
qed

lemma cleanup_loop_post:
  assumes "cache_wf s" and "set cs \<subseteq> set (firmware_cache s)"
      and "distinct (map ce_firmware_id cs)"
      and "current_size - removed_size = get_cache_size (files s)"
      and "\<forall>e\<in>set (firmware_cache s). eviction_candidate now e \<longrightarrow> e \<in> set cs"
  shows "cache_wf (fst (cleanup_loop current_size removed_size cs s))
         \<and> (10 * get_cache_size (files (fst (cleanup_loop current_size removed_size cs s)))
                < 7 * max_cache_size
              \<or> \<not> list_ex (eviction_candidate now)
                       (firmware_cache (fst (cleanup_loop current_size removed_size cs s))))"
  using assms
proof (induction cs arbitrary: s removed_size)
  case Nil
  then show ?case by (auto simp: list_ex_iff)
next
  case (Cons c cs)
  show ?case
  proof (cases "10 * (current_size - removed_size) < 7 * max_cache_size")
    case True
    with Cons.prems show ?thesis by simp
  next
    case False
    from Cons.prems(2) have c: "c \<in> set (firmware_cache s)" by simp
    note r = remove_cached_wf[OF Cons.prems(1) c]
    have "cache_wf (fst (cleanup_loop current_size (removed_size + int (ce_file_size c)) cs (remove_cached s c)))
         \<and> (10 * get_cache_size (files (fst (cleanup_loop current_size
                   (removed_size + int (ce_file_size c)) cs (remove_cached s c))))
                < 7 * max_cache_size
              \<or> \<not> list_ex (eviction_candidate now)
                       (firmware_cache (fst (cleanup_loop current_size
                          (removed_size + int (ce_file_size c)) cs (remove_cached s c)))))"
    proof (rule Cons.IH)
      show "cache_wf (remove_cached s c)" by (rule r(1))
      from Cons.prems(3) have "ce_firmware_id c \<notin> ce_firmware_id ` set cs" by simp
      with Cons.prems(2) show "set cs \<subseteq> set (firmware_cache (remove_cached s c))"
        unfolding r(2) by (auto simp: image_iff)
      show "distinct (map ce_firmware_id cs)" using Cons.prems(3) by simp
      show "current_size - (removed_size + int (ce_file_size c))
              = get_cache_size (files (remove_cached s c))"
        unfolding r(4) using Cons.prems(4) by simp
      show "\<forall>e\<in>set (firmware_cache (remove_cached s c)). eviction_candidate now e \<longrightarrow> e \<in> set cs"
        unfolding r(2) using Cons.prems(5) by auto
    qed
    with False show ?thesis by simp
  qed
qed

lemma eviction_candidates_set:
  "set (eviction_candidates now rows) = {e \<in> set rows. eviction_candidate now e}"
  by (auto simp: eviction_candidates_def)

lemma eviction_candidates_distinct:
  "distinct (map ce_firmware_id rows) \<Longrightarrow> distinct (map ce_firmware_id (eviction_candidates now rows))"
  by (simp add: eviction_candidates_def distinct_map distinct_map_filter inj_on_def)

lemma cleanup_cache_post:
  assumes "cache_wf s"
  shows "cache_wf (cleanup_cache s force now)"
    and "force \<Longrightarrow>
         10 * get_cache_size (files (cleanup_cache s force now)) < 7 * max_cache_size
         \<or> \<not> list_ex (eviction_candidate now) (firmware_cache (cleanup_cache s force now))"
proof -
  from assms have d: "distinct (map ce_firmware_id (firmware_cache s))"
    unfolding cache_wf_iff by blast
  have l: "cache_wf (fst (cleanup_loop (get_cache_size (files s)) 0
                      (eviction_candidates now (firmware_cache s)) s))
         \<and> (10 * get_cache_size (files (fst (cleanup_loop (get_cache_size (files s)) 0
                      (eviction_candidates now (firmware_cache s)) s)))
                < 7 * max_cache_size
              \<or> \<not> list_ex (eviction_candidate now)
                       (firmware_cache (fst (cleanup_loop (get_cache_size (files s)) 0
                      (eviction_candidates now (firmware_cache s)) s))))"
    by (rule cleanup_loop_post[OF assms])
       (auto simp: eviction_candidates_set eviction_candidates_distinct d)
  with assms show "cache_wf (cleanup_cache s force now)"
    by (simp add: cleanup_cache_def Let_def)
  from l show "10 * get_cache_size (files (cleanup_cache s force now)) < 7 * max_cache_size
         \<or> \<not> list_ex (eviction_candidate now) (firmware_cache (cleanup_cache s force now))"
    if force
    using that by (simp add: cleanup_cache_def Let_def)
qed

lemma apply_op_wf:
  assumes "cache_wf s" and "valid_op op"
  shows "cache_wf (apply_op s op)"
proof (cases op)
  case (Download i url tmp outcome now)
  with assms show ?thesis by (simp add: download_wf)
next
  case (Get i)
  with assms show ?thesis by (simp add: get_cached_wf)
next
  case (Cleanup force now)
  with assms show ?thesis by (simp add: cleanup_cache_post(1))
qed

lemma run_ops_wf:
  "cache_wf s \<Longrightarrow> list_all valid_op ops \<Longrightarrow> cache_wf (run_ops s ops)"
  unfolding run_ops_def
  by (induction ops arbitrary: s) (simp_all add: apply_op_wf)

lemma new_cache_wf: "outside_cache d \<Longrightarrow> cache_wf (new_cache catalog d)"
  by (rule cache_wfI[where rows = "[]" and d = d])
     (auto simp: outside_cache_def new_cache_def list_ex_iff dest: map_of_SomeD)

lemma reachable_wf:
  "outside_cache d \<Longrightarrow> list_all valid_op ops \<Longrightarrow> cache_wf (run_ops (new_cache catalog d) ops)"
  by (simp add: run_ops_wf new_cache_wf)

lemma wf_consistent:
  assumes "cache_wf s"
  shows "cache_consistent s"
proof -
  note w = assms[unfolded cache_wf_iff]
  have "path_exists (files s) (ce_local_path e)" if "e \<in> set (firmware_cache s)" for e
  proof -
    from w that obtain content where "ce_local_path e = cache_path (ce_firmware_id e)"
      "map_of (files s) (cache_path (ce_firmware_id e)) = Some content"
      by blast
    then show ?thesis by (simp add: path_exists_def)
  qed
  moreover have "\<exists>e\<in>set (firmware_cache s). ce_local_path e = fst f"
    if "f \<in> set (files s)" "in_dir cache_dir (fst f)" for f
  proof -
    from that(1) have "map_of (files s) (fst f) \<noteq> None"
      by (simp add: map_of_eq_None_iff)
    with w that(2) obtain e where e: "e \<in> set (firmware_cache s)"
      "fst f = cache_path (ce_firmware_id e)"
      by blast
    with w have "ce_local_path e = fst f" by simp
    with e(1) show ?thesis by blast
  qed
  moreover from w have "distinct (map ce_firmware_id (firmware_cache s))" by blast
  ultimately show ?thesis
    unfolding cache_consistent_def list_all_iff list_ex_iff by blast
qed

lemma wf_entry_iff_file:
  assumes "cache_wf s" and "valid_firmware_id i"
  shows "i \<in> ce_firmware_id ` set (firmware_cache s) \<longleftrightarrow> path_exists (files s) (cache_path i)"
proof
  assume "i \<in> ce_firmware_id ` set (firmware_cache s)"
  with assms(1) obtain content where "map_of (files s) (cache_path i) = Some content"
    unfolding cache_wf_iff by blast
  then show "path_exists (files s) (cache_path i)" by (simp add: path_exists_def)
next
  assume p: "path_exists (files s) (cache_path i)"
  show "i \<in> ce_firmware_id ` set (firmware_cache s)"
  proof (rule ccontr)
    assume "i \<notin> ce_firmware_id ` set (firmware_cache s)"
    from no_row_no_file[OF assms this] p show False by (simp add: path_exists_def)
  qed
qed

lemma one_row_per_id:
  "distinct (map f xs) \<Longrightarrow> x \<in> f ` set xs \<Longrightarrow> length (filter (\<lambda>e. f e = x) xs) = 1"
proof (induction xs)
  case Nil
  then show ?case by simp
next
  case (Cons a xs)
  show ?case
  proof (cases "f a = x")
    case True
    from Cons.prems(1) have "f a \<notin> f ` set xs" by simp
    then have "\<forall>e\<in>set xs. f e \<noteq> f a" by (metis imageI)
    with True have "filter (\<lambda>e. f e = x) xs = []"
      by (simp add: filter_empty_conv)
    with True show ?thesis by simp
  next
    case False
    with Cons show ?thesis by auto
  qed
qed

lemma update_access_time_ids:
  "map ce_firmware_id (firmware_cache (update_access_time s i now))
     = map ce_firmware_id (firmware_cache s)"
proof -
  have "map ce_firmware_id (map (\<lambda>e. if ce_firmware_id e = i
                   then e\<lparr>ce_last_accessed := now, ce_download_count := ce_download_count e + 1\<rparr>
                   else e) xs) = map ce_firmware_id xs" for xs :: "cache_entry list"
    by (induction xs) auto
  then show ?thesis by (simp add: update_access_time_def)
qed

lemma download_some:
  assumes "cache_wf s" and "valid_firmware_id i" and "\<not> in_dir cache_dir tmp"
      and "download_and_cache_firmware s i url tmp outcome now = (Some p, s')"
  shows "p = cache_path i" and "i \<in> ce_firmware_id ` set (firmware_cache s')"
proof -
  have "p = cache_path i \<and> i \<in> ce_firmware_id ` set (firmware_cache s')"
  proof (cases "i \<in> ce_firmware_id ` set (firmware_cache s)")
    case True
    have "ce_firmware_id ` set (firmware_cache (update_access_time s i now))
            = ce_firmware_id ` set (firmware_cache s)"
      using update_access_time_ids[of s i now] by (metis set_map)
    with True assms(4) show ?thesis
      unfolding download_hit[OF assms(1,2) True] by auto
  next
    case False
    show ?thesis
    proof (cases outcome)
      case (DownloadFailed written)
      with assms(4) show ?thesis
        unfolding DownloadFailed download_miss(1)[OF assms(1-3) False] by simp
    next
      case (Downloaded content m h)
      with assms(4) show ?thesis
        unfolding Downloaded download_miss(2)[OF assms(1-3) False]
        by (auto simp: add_to_cache_db_def update_firmware_local_path_def split: if_splits)
    qed
  qed
  then show "p = cache_path i" and "i \<in> ce_firmware_id ` set (firmware_cache s')" by simp_all
qed

lemma download_none:
  assumes "cache_wf s" and "valid_firmware_id i" and "\<not> in_dir cache_dir tmp"
      and "download_and_cache_firmware s i url tmp outcome now = (None, s')"
  shows "i \<notin> ce_firmware_id ` set (firmware_cache s')"
    and "map_of (files s') tmp = None" and "map_of (files s') (cache_path i) = None"
    and "firmware_cache s' = firmware_cache s"
proof -
  have n: "i \<notin> ce_firmware_id ` set (firmware_cache s)"
  proof
    assume "i \<in> ce_firmware_id ` set (firmware_cache s)"
    from assms(4)[unfolded download_hit[OF assms(1,2) this]] show False by simp
  qed
  note f = no_row_no_file[OF assms(1,2) n]
  have "i \<notin> ce_firmware_id ` set (firmware_cache s') \<and> map_of (files s') tmp = None
        \<and> map_of (files s') (cache_path i) = None \<and> firmware_cache s' = firmware_cache s"
  proof (cases outcome)
    case (DownloadFailed written)
    from assms(4)[unfolded DownloadFailed download_miss(1)[OF assms(1-3) n]]
    have "s' = s\<lparr>files := remove_file (files s) tmp\<rparr>" by simp
    with n f show ?thesis by (simp add: map_of_remove_file)
  next
    case (Downloaded content m h)
    from assms(4)[unfolded Downloaded download_miss(2)[OF assms(1-3) n]]
    have "s' = s\<lparr>files := remove_file (remove_file (files s) tmp) (cache_path i)\<rparr>"
      by (simp split: if_splits)
    with n show ?thesis by (simp add: map_of_remove_file)
  qed
  then show "i \<notin> ce_firmware_id ` set (firmware_cache s')"
    and "map_of (files s') tmp = None" and "map_of (files s') (cache_path i) = None"
    and "firmware_cache s' = firmware_cache s"
    by blast+
qed

lemma list_ex_id: "list_ex (\<lambda>e. f e = x) xs \<longleftrightarrow> x \<in> f ` set xs"
  by (auto simp: list_ex_iff)

lemma moved_files:
  "tmp \<noteq> cache_path i \<Longrightarrow>
   files (move_to_cache (download_file s tmp (Downloaded content m h)) tmp i)
     = (cache_path i, content) # remove_file (remove_file (files s) tmp) (cache_path i)"
  by (simp add: move_to_cache_def download_file_files move_file_def write_file_def
        downloaded_bytes_def) (simp add: remove_file_def)

lemma moved_rows:
  "firmware_cache (move_to_cache (download_file s tmp outcome) tmp i) = firmware_cache s"
  "firmware_db (move_to_cache (download_file s tmp outcome) tmp i) = firmware_db s"
  by (simp_all add: move_to_cache_def download_file_def)

lemma download_not_cached:
  assumes "get_cached_firmware_path s i = (None, s0)"
  shows "download_and_cache_firmware s i url tmp (Downloaded content m h) now =
           (if verify_firmware_file
                 (files (move_to_cache (download_file s0 tmp (Downloaded content m h)) tmp i))
                 (cache_path i)
            then (Some (cache_path i),
                  update_firmware_local_path
                    (add_to_cache_db (move_to_cache (download_file s0 tmp (Downloaded content m h)) tmp i)
                       i (cache_path i) url (length content) m h now)
                    i (cache_path i))
            else (None,
                  (move_to_cache (download_file s0 tmp (Downloaded content m h)) tmp i)
                    \<lparr>files := remove_file
                       (files (move_to_cache (download_file s0 tmp (Downloaded content m h)) tmp i))
                       (cache_path i)\<rparr>))"
  by (simp add: download_and_cache_firmware_def assms cache_hit_def Let_def)

lemma valid_download_paths:
  "valid_op (Download i url tmp outcome now) \<Longrightarrow> tmp \<noteq> cache_path i"
  using in_dir_cache_path by auto

lemma get_cached_miss_rows:
  assumes "get_cached_firmware_path s i = (None, s0)"
  shows "\<not> list_ex (\<lambda>e. ce_firmware_id e = i \<and> ce_verified e) (firmware_cache s0)"
proof (cases "find (\<lambda>e. ce_firmware_id e = i \<and> ce_verified e) (firmware_cache s)")
  case None
  with assms have "s0 = s" by (simp add: get_cached_firmware_path_def)
  with None show ?thesis by (simp add: find_None_iff list_ex_iff)
next
  case (Some row)
  with assms have "s0 = remove_from_cache_db s i"
    by (simp add: get_cached_firmware_path_def split: if_splits)
  then show ?thesis by (auto simp: remove_from_cache_db_def list_ex_iff)
qed

lemma valid_first_download: "valid_op first_download"
  by (simp add: first_download_def valid_firmware_id_def in_dir_def cache_dir_def)


lemma outside_cache_empty: "outside_cache []"
  by (simp add: outside_cache_def)

lemma esp32_image_verifies: "100000 \<le> n + 4 \<Longrightarrow> 100000 \<le> length (esp32_image n) \<and> hd (esp32_image n) = 0xE9"
  by (simp add: esp32_image_def)

lemma new_cache_fields:
  "firmware_cache (new_cache catalog d) = []" "files (new_cache catalog d) = d"
  "firmware_db (new_cache catalog d) = catalog"
  by (simp_all add: new_cache_def)

lemma downloaded_into_new_cache:
  assumes "valid_firmware_id i" and "\<not> in_dir cache_dir tmp" and "100000 \<le> n + 4"
  shows "fst (download_and_cache_firmware (new_cache [] []) i url tmp (Downloaded (esp32_image n) m h) now)
           = Some (cache_path i)"
    and "files (snd (download_and_cache_firmware (new_cache [] []) i url tmp
                        (Downloaded (esp32_image n) m h) now)) = [(cache_path i, esp32_image n)]"
    and "firmware_cache (snd (download_and_cache_firmware (new_cache [] []) i url tmp
                        (Downloaded (esp32_image n) m h) now))
           = [\<lparr>ce_firmware_id = i, ce_local_path = cache_path i, ce_download_url = url,
               ce_file_size = n + 4, ce_md5_hash = m, ce_sha256_hash = h,
               ce_download_count = 0, ce_last_accessed = now, ce_verified = True\<rparr>]"
proof -
  have w: "cache_wf (new_cache [] [])"
    using outside_cache_empty by (rule new_cache_wf)
  have n: "i \<notin> ce_firmware_id ` set (firmware_cache (new_cache [] []))"
    by (simp add: new_cache_fields)
  note d = download_miss(2)[OF w assms(1,2) n, of url "esp32_image n" m h now]
  show "fst (download_and_cache_firmware (new_cache [] []) i url tmp (Downloaded (esp32_image n) m h) now)
           = Some (cache_path i)"
    unfolding d using esp32_image_verifies[OF assms(3)] by simp
  show "files (snd (download_and_cache_firmware (new_cache [] []) i url tmp
                        (Downloaded (esp32_image n) m h) now)) = [(cache_path i, esp32_image n)]"
    unfolding d using esp32_image_verifies[OF assms(3)]
    by (simp add: add_to_cache_db_def update_firmware_local_path_def new_cache_fields remove_file_def)
  show "firmware_cache (snd (download_and_cache_firmware (new_cache [] []) i url tmp
                        (Downloaded (esp32_image n) m h) now))
           = [\<lparr>ce_firmware_id = i, ce_local_path = cache_path i, ce_download_url = url,
               ce_file_size = n + 4, ce_md5_hash = m, ce_sha256_hash = h,
               ce_download_count = 0, ce_last_accessed = now, ce_verified = True\<rparr>]"
    unfolding d using esp32_image_verifies[OF assms(3)]
    by (simp add: add_to_cache_db_def update_firmware_local_path_def new_cache_fields
          length_esp32_image)
qed

lemma cache_path_fw: "cache_path ''fw1'' = ''/opt/app/data/firmware_cache/fw1.bin''"
  "cache_path ''fw2'' = ''/opt/app/data/firmware_cache/fw2.bin''"
  by (simp_all add: cache_path_valid valid_firmware_id_def cache_dir_def)

lemma first_download_state:
  "files (run_ops (new_cache [] []) [first_download]) = [(cache_path ''fw1'', esp32_image 99996)]"
  "firmware_cache (run_ops (new_cache [] []) [first_download])
     = [\<lparr>ce_firmware_id = ''fw1'', ce_local_path = cache_path ''fw1'',
         ce_download_url = ''http://ota.tasmota.com/tasmota32/release/tasmota32.bin'',
         ce_file_size = 100000, ce_md5_hash = ''md5-1'', ce_sha256_hash = ''sha256-1'',
         ce_download_count = 0, ce_last_accessed = 1000, ce_verified = True\<rparr>]"
  unfolding run_ops_def first_download_def
  using downloaded_into_new_cache(2,3)[of "''fw1''" "''/tmp/tmpa1b2c3.bin''" 99996]
  by (simp_all add: valid_firmware_id_def in_dir_def cache_dir_def)

subsection \<open>Duplicate uploads\<close>

text \<open>
  Claim C5, as stated, fails: the extension check comes before the duplicate check, so a
  second upload of stored bytes under a name such as \<open>fw.txt\<close> is rejected as an
  invalid file type, not as a duplicate.
\<close>

theorem duplicate_upload_other_extension_counterexample:
  "firmware_hash_exists
     (snd (upload_firmware sample_externals ''2024-01-01T00:00:00'' empty_store (esp32_image 99996)
             ''fw.bin'' no_metadata anonymous))
     (sha256_hexdigest sample_externals (esp32_image 99996))
   \<and> fst (upload_firmware sample_externals ''2024-01-02T00:00:00''
            (snd (upload_firmware sample_externals ''2024-01-01T00:00:00'' empty_store
                    (esp32_image 99996) ''fw.bin'' no_metadata anonymous))
            (esp32_image 99996) ''fw.txt'' no_metadata anonymous)
       = UploadRejected InvalidFileType
   \<and> UploadRejected InvalidFileType \<noteq> UploadRejected AlreadyUploaded"
proof -
  have "splitext_ext ''fw.txt'' = ''.txt''"
    by (simp add: splitext_ext_def basename_def)
  then have "validate_firmware_upload sample_externals
            (snd (upload_firmware sample_externals ''2024-01-01T00:00:00'' empty_store
                    (esp32_image 99996) ''fw.bin'' no_metadata anonymous))
            (esp32_image 99996) ''fw.txt'' no_metadata = Inl InvalidFileType"
    by (simp add: validate_firmware_upload_def length_esp32_image max_file_size_def
          allowed_extensions_def lower_def lower_char_def)
  then show ?thesis
    using uploaded_hash_exists[OF sample_first_upload]
    by (simp add: upload_rejected_unchanged)
qed

text \<open>
  Claim C5, amended. When the SHA-256 digest of the bytes is found in the official or in
  the community catalog, the upload is rejected whatever its file name and metadata, and
  the store is left as it was: no file is written and no row is added. The reason is the
  duplicate whenever the size and the extension pass the two checks that come first.
\<close>

theorem duplicate_upload_rejected_without_mutation:
  assumes "firmware_hash_exists store (sha256_hexdigest ext file_data)"
  shows "(\<exists>reason. upload_firmware ext now store file_data filename metadata author
                     = (UploadRejected reason, store))
         \<and> (length file_data \<le> max_file_size \<and> 100000 \<le> length file_data
              \<and> lower (splitext_ext filename) \<in> set allowed_extensions \<longrightarrow>
            upload_firmware ext now store file_data filename metadata author
              = (UploadRejected AlreadyUploaded, store))"
  using validate_duplicate[OF assms, of filename metadata]
  by (auto simp: upload_rejected_unchanged)

text \<open>The same image uploaded a second time, with another version in its metadata.\<close>

theorem duplicate_upload_rejected_without_mutation_witness:
  "firmware_hash_exists
     (snd (upload_firmware sample_externals ''2024-01-01T00:00:00'' empty_store (esp32_image 99996)
             ''fw.bin'' no_metadata anonymous))
     (sha256_hexdigest sample_externals (esp32_image 99996))
   \<and> upload_firmware sample_externals ''2024-01-02T00:00:00''
            (snd (upload_firmware sample_externals ''2024-01-01T00:00:00'' empty_store
                    (esp32_image 99996) ''fw.bin'' no_metadata anonymous))
            (esp32_image 99996) ''fw.bin'' (no_metadata(''version'' \<mapsto> JString ''2.0'')) anonymous
       = (UploadRejected AlreadyUploaded,
          snd (upload_firmware sample_externals ''2024-01-01T00:00:00'' empty_store
                    (esp32_image 99996) ''fw.bin'' no_metadata anonymous))"
  using duplicate_upload_rejected_without_mutation
          [where now = "''2024-01-02T00:00:00''" and filename = "''fw.bin''"
             and metadata = "no_metadata(''version'' \<mapsto> JString ''2.0'')" and author = anonymous,
           OF uploaded_hash_exists[OF sample_first_upload]]
        uploaded_hash_exists[OF sample_first_upload]
  by (simp add: length_esp32_image max_file_size_def allowed_extensions_def splitext_fw_bin lower_bin)

subsection \<open>The id of an accepted upload\<close>




subsection \<open>Polling twice\<close>




subsection \<open>A stable release with one ESP32 asset\<close>

text \<open>
  Claim C8: when the release listing holds one release \<^verbatim>\<open>v13.2.0\<close> with the asset
  \<^verbatim>\<open>tasmota32-sensors.bin\<close> and the catalog has no entry under the identifier generated
  for it, polling and saving appends exactly one entry: chip type ESP32, variant sensors,
  channel stable, verified.
\<close>

theorem sensors_release_adds_one_entry:
  assumes "github_get env (src_url github_releases_config) =
             Reply 200 [sensors_release published_at body url]"
      and "\<not> firmware_exists catalog
               (generate_firmware_id ext ''tasmota32-sensors.bin'' ''v13.2.0'' ''stable'')"
  shows "map_of sources ''github_releases'' = Some github_releases_config
         \<and> (\<exists>row. poll_and_save ext env catalog (''github_releases'', github_releases_config)
                 = catalog @ [row]
             \<and> fw_id row = generate_firmware_id ext ''tasmota32-sensors.bin'' ''v13.2.0'' ''stable''
             \<and> fw_name row = ''tasmota32-sensors.bin'' \<and> fw_version row = ''v13.2.0''
             \<and> fw_chip_type row = ''ESP32'' \<and> fw_variant row = ''sensors''
             \<and> fw_channel row = ''stable'' \<and> fw_verified row \<and> fw_size row = 650000
             \<and> fw_status row = ''available'')"
proof -
  let ?id = "generate_firmware_id ext ''tasmota32-sensors.bin'' ''v13.2.0'' ''stable''"
  let ?u = "\<lparr>up_id = ?id, up_name = ''tasmota32-sensors.bin'', up_version = ''v13.2.0'',
             up_chip_type = ''ESP32'', up_variant = ''sensors'', up_channel = ''stable'',
             up_source = ''github_releases'', up_download_url = url, up_size = 650000,
             up_published_at = published_at, up_changelog = Some body,
             up_features = [''All Sensors'', ''DHT22'', ''DS18B20'', ''BMP280''],
             up_compatibility = []\<rparr>"
  have p: "poll_source ext env catalog (''github_releases'', github_releases_config) = [?u]"
    using assms
    by (simp add: poll_source_def check_github_source_def process_github_releases_def
          sensors_release_def endswith_bin parse_tasmota32_sensors github_releases_config_def)
  have "\<not> firmware_exists catalog (fw_id (firmware_row ?u))"
    using assms(2) by (simp add: firmware_row_def)
  then have "save_firmware_updates catalog [?u] = catalog @ [firmware_row ?u]"
    by (simp add: save_firmware_updates_def insert_new_row)
  with p have "poll_and_save ext env catalog (''github_releases'', github_releases_config)
                 = catalog @ [firmware_row ?u]"
    by (simp add: poll_and_save_def)
  then show ?thesis
    by (simp add: firmware_row_def github_releases_configured)
qed

text \<open>The statement at the empty catalog.\<close>

theorem sensors_release_adds_one_entry_witness:
  "github_get release_listing (src_url github_releases_config) =
     Reply 200 [sensors_release ''2023-12-14T09:00:00Z'' ''Release notes''
        ''https://github.com/arendst/Tasmota/releases/download/v13.2.0/tasmota32-sensors.bin'']
   \<and> \<not> firmware_exists []
         (generate_firmware_id sample_externals ''tasmota32-sensors.bin'' ''v13.2.0'' ''stable'')
   \<and> (\<exists>row. poll_and_save sample_externals release_listing []
                 (''github_releases'', github_releases_config) = [row]
             \<and> fw_id row = ''tasmota32-sensors.bin_v13.2.0_stable''
             \<and> fw_chip_type row = ''ESP32'' \<and> fw_variant row = ''sensors''
             \<and> fw_channel row = ''stable'' \<and> fw_verified row \<and> fw_size row = 650000)"
proof -
  have g: "github_get release_listing (src_url github_releases_config) =
     Reply 200 [sensors_release ''2023-12-14T09:00:00Z'' ''Release notes''
        ''https://github.com/arendst/Tasmota/releases/download/v13.2.0/tasmota32-sensors.bin'']"
    by (simp add: release_listing_def)
  have n: "\<not> firmware_exists []
         (generate_firmware_id sample_externals ''tasmota32-sensors.bin'' ''v13.2.0'' ''stable'')"
    by (simp add: firmware_exists_def)
  have i: "generate_firmware_id sample_externals ''tasmota32-sensors.bin'' ''v13.2.0'' ''stable''
           = ''tasmota32-sensors.bin_v13.2.0_stable''"
    by (simp add: generate_firmware_id_def sample_externals_def decode_encode)
  from sensors_release_adds_one_entry[OF g n] g n show ?thesis
    unfolding i by auto
qed

subsection \<open>Failures of single sources\<close>

text \<open>
  Claim C9 at an input where the code departs from it. Every request fails, for the
  source \<^verbatim>\<open>github_releases\<close> among the others. The failure is caught inside
  \<^verbatim>\<open>_check_github_source\<close> and \<^verbatim>\<open>_check_ota_source\<close>, which return the empty
  list, so the branch of \<^verbatim>\<open>check_all_sources_for_updates\<close> that records an error for
  a source is never taken: the list of errors is empty and the source is reported as
  checked, with no updates.
\<close>

theorem failed_request_leaves_no_error_record:
  "github_get unreachable (src_url github_releases_config) = RequestFailed ''Cannot connect to host''
   \<and> map_of sources ''github_releases'' = Some github_releases_config
   \<and> res_errors (check_all_sources_for_updates sample_externals unreachable []) = []
   \<and> map_of (res_sources (check_all_sources_for_updates sample_externals unreachable []))
        ''github_releases'' = Some \<lparr>sr_updates = 0, sr_firmware = []\<rparr>
   \<and> hd (res_history (check_all_sources_for_updates sample_externals unreachable []))
       = (''github_releases'', 0, None)"
  by (simp add: unreachable_def sources_def github_releases_config_def
        check_all_sources_for_updates_def check_sources_def check_one_source_def empty_results_def
        check_github_source_def check_ota_source_def)

subsection \<open>Entries and files of the cache\<close>

text \<open>
  Claim C1. The cache starts with no row and no file below its directory, and runs any
  sequence of downloads, lookups and cleanups; every download is for an id that is a file
  name and uses a temporary file outside the cache directory. Then after every prefix of
  the sequence every row's file exists, every file below the cache directory is the file of
  a row, and no two rows have the same id. From every state reached, a download that
  returns a path leaves exactly one row for the id, naming that path, whose file exists; a
  download that fetched a file and returns nothing leaves no row for the id and no file, at
  the cache path or at the temporary path; and after a cleanup a row of the state has its
  file exactly when its id still has a row. The database and the file system are taken
  to work without errors.
\<close>

theorem cache_entries_match_files:
  assumes "outside_cache d" and "list_all valid_op ops"
      and "s = run_ops (new_cache catalog d) ops"
  shows "(\<forall>n. cache_consistent (run_ops (new_cache catalog d) (take n ops)))
         \<and> cache_consistent s
         \<and> (valid_op (Download i url tmp outcome now)
              \<and> download_and_cache_firmware s i url tmp outcome now = (Some p, s') \<longrightarrow>
            length (filter (\<lambda>e. ce_firmware_id e = i) (firmware_cache s')) = 1
            \<and> list_ex (\<lambda>e. ce_firmware_id e = i \<and> ce_local_path e = p) (firmware_cache s')
            \<and> path_exists (files s') p)
         \<and> (valid_op (Download j url' tmp' (Downloaded content m h) now')
              \<and> download_and_cache_firmware s j url' tmp' (Downloaded content m h) now' = (None, s'') \<longrightarrow>
            \<not> list_ex (\<lambda>e. ce_firmware_id e = j) (firmware_cache s'')
            \<and> \<not> path_exists (files s'') (cache_path j)
            \<and> \<not> path_exists (files s'') tmp')
         \<and> (\<forall>e\<in>set (firmware_cache s).
              list_ex (\<lambda>r. ce_firmware_id r = ce_firmware_id e) (firmware_cache (cleanup_cache s force t))
              = path_exists (files (cleanup_cache s force t)) (ce_local_path e))"
proof (intro conjI allI impI ballI)
  have w: "cache_wf s"
    unfolding assms(3) using assms(1,2) by (rule reachable_wf)
  show "cache_consistent s" using w by (rule wf_consistent)
  show "cache_consistent (run_ops (new_cache catalog d) (take n ops))" for n
  proof -
    from assms(2) have "list_all valid_op (take n ops)"
      by (auto simp: list_all_iff dest: in_set_takeD)
    with assms(1) show ?thesis by (intro wf_consistent reachable_wf)
  qed
  {
    assume a: "valid_op (Download i url tmp outcome now)
              \<and> download_and_cache_firmware s i url tmp outcome now = (Some p, s')"
    then have v: "valid_firmware_id i" "\<not> in_dir cache_dir tmp" by simp_all
    from a have r: "download_and_cache_firmware s i url tmp outcome now = (Some p, s')" by simp
    from download_wf[OF w v, of url outcome now] r have w': "cache_wf s'" by simp
    note p = download_some[OF w v r]
    from w' have dist: "distinct (map ce_firmware_id (firmware_cache s'))"
      unfolding cache_wf_iff by blast
    from dist p(2) show "length (filter (\<lambda>e. ce_firmware_id e = i) (firmware_cache s')) = 1"
      by (rule one_row_per_id)
    from p(2) obtain e where "e \<in> set (firmware_cache s')" "ce_firmware_id e = i" by auto
    moreover with w' have "ce_local_path e = cache_path i"
      unfolding cache_wf_iff by blast
    ultimately show "list_ex (\<lambda>e. ce_firmware_id e = i \<and> ce_local_path e = p) (firmware_cache s')"
      unfolding p(1) list_ex_iff by blast
    from wf_entry_iff_file[OF w' v(1)] p show "path_exists (files s') p" by simp
  }
  {
    assume a: "valid_op (Download j url' tmp' (Downloaded content m h) now')
              \<and> download_and_cache_firmware s j url' tmp' (Downloaded content m h) now' = (None, s'')"
    then have v: "valid_firmware_id j" "\<not> in_dir cache_dir tmp'" by simp_all
    from a have r: "download_and_cache_firmware s j url' tmp' (Downloaded content m h) now' = (None, s'')"
      by simp
    note n = download_none[OF w v r]
    from n(1) show "\<not> list_ex (\<lambda>e. ce_firmware_id e = j) (firmware_cache s'')"
      by (simp add: list_ex_id)
    from n(3) show "\<not> path_exists (files s'') (cache_path j)" by (simp add: path_exists_def)
    from n(2) show "\<not> path_exists (files s'') tmp'" by (simp add: path_exists_def)
  }
  {
    fix e assume e: "e \<in> set (firmware_cache s)"
    with w have v: "valid_firmware_id (ce_firmware_id e)" "ce_local_path e = cache_path (ce_firmware_id e)"
      unfolding cache_wf_iff by blast+
    from cleanup_cache_post(1)[OF w] have "cache_wf (cleanup_cache s force t)" .
    from wf_entry_iff_file[OF this v(1)]
    show "list_ex (\<lambda>r. ce_firmware_id r = ce_firmware_id e) (firmware_cache (cleanup_cache s force t))
              = path_exists (files (cleanup_cache s force t)) (ce_local_path e)"
      unfolding v(2) list_ex_id .
  }
qed

text \<open>
  After the download of \<^verbatim>\<open>fw1\<close> into the empty cache, and a download of \<^verbatim>\<open>fw2\<close>
  with a wrong header from there.
\<close>

theorem cache_entries_match_files_witness:
  "outside_cache [] \<and> list_all valid_op [first_download]
   \<and> cache_consistent (run_ops (new_cache [] []) [first_download])
   \<and> map ce_firmware_id (firmware_cache (run_ops (new_cache [] []) [first_download])) = [''fw1'']
   \<and> path_exists (files (run_ops (new_cache [] []) [first_download]))
        ''/opt/app/data/firmware_cache/fw1.bin''
   \<and> fst (download_and_cache_firmware (run_ops (new_cache [] []) [first_download]) ''fw2''
            ''http://ota.tasmota.com/tasmota/release/tasmota.bin'' ''/tmp/tmpd4e5f6.bin''
            (Downloaded (wrong_header_image 99996) ''md5-2'' ''sha256-2'') 2000) = None
   \<and> \<not> path_exists
          (files (snd (download_and_cache_firmware (run_ops (new_cache [] []) [first_download]) ''fw2''
            ''http://ota.tasmota.com/tasmota/release/tasmota.bin'' ''/tmp/tmpd4e5f6.bin''
            (Downloaded (wrong_header_image 99996) ''md5-2'' ''sha256-2'') 2000)))
          (cache_path ''fw2'')"
proof -
  let ?s = "run_ops (new_cache [] []) [first_download]"
  let ?d = "download_and_cache_firmware ?s ''fw2''
            ''http://ota.tasmota.com/tasmota/release/tasmota.bin'' ''/tmp/tmpd4e5f6.bin''
            (Downloaded (wrong_header_image 99996) ''md5-2'' ''sha256-2'') 2000"
  have v: "list_all valid_op [first_download]"
    by (simp add: valid_first_download)
  have w: "cache_wf ?s"
    using outside_cache_empty v by (rule reachable_wf)
  have v2: "valid_firmware_id ''fw2''" "\<not> in_dir cache_dir ''/tmp/tmpd4e5f6.bin''"
    by (simp_all add: valid_firmware_id_def in_dir_def cache_dir_def)
  have n: "''fw2'' \<notin> ce_firmware_id ` set (firmware_cache ?s)"
    by (simp add: first_download_state)
  have h: "\<not> (100000 \<le> length (wrong_header_image 99996) \<and> hd (wrong_header_image 99996) = 0xE9)"
    by (simp add: wrong_header_image_def)
  have d: "?d = (None, snd ?d)"
    unfolding download_miss(2)[OF w v2 n] using h by simp
  note t = cache_entries_match_files[OF outside_cache_empty v refl,
      where j = "''fw2''" and url' = "''http://ota.tasmota.com/tasmota/release/tasmota.bin''"
        and tmp' = "''/tmp/tmpd4e5f6.bin''" and content = "wrong_header_image 99996"
        and m = "''md5-2''" and h = "''sha256-2''" and now' = 2000 and s'' = "snd ?d"]
  note c = t[THEN conjunct2, THEN conjunct1]
  note f = t[THEN conjunct2, THEN conjunct2, THEN conjunct2, THEN conjunct1, THEN mp]
  have "valid_op (Download ''fw2'' ''http://ota.tasmota.com/tasmota/release/tasmota.bin''
            ''/tmp/tmpd4e5f6.bin'' (Downloaded (wrong_header_image 99996) ''md5-2'' ''sha256-2'') 2000)
        \<and> ?d = (None, snd ?d)"
    using v2 d by simp
  from f[OF this] have "\<not> path_exists (files (snd ?d)) (cache_path ''fw2'')" by blast
  moreover have "fst ?d = None" using d by (metis fst_conv)
  moreover have "map ce_firmware_id (firmware_cache ?s) = [''fw1'']"
    by (simp add: first_download_state)
  moreover have "path_exists (files ?s) ''/opt/app/data/firmware_cache/fw1.bin''"
    by (simp add: first_download_state path_exists_def cache_path_fw)
  ultimately show ?thesis
    using outside_cache_empty v c by blast
qed

subsection \<open>Forced cleanup\<close>



subsection \<open>Verification of a download\<close>

text \<open>
  Claim C3, as stated, fails: the downloaded file is moved to its place in the cache
  directory first and verified there. A file of 100000 bytes whose header matches no
  signature is below the cache directory in the state in which the verification runs and
  fails; it is removed afterwards.
\<close>

theorem rejected_download_is_moved_first_counterexample:
  "cache_path ''fw1'' = ''/opt/app/data/firmware_cache/fw1.bin''
   \<and> in_dir cache_dir ''/opt/app/data/firmware_cache/fw1.bin''
   \<and> files (move_to_cache
              (download_file (new_cache [] []) ''/tmp/tmpa1b2c3.bin''
                 (Downloaded (wrong_header_image 99996) ''md5-1'' ''sha256-1''))
              ''/tmp/tmpa1b2c3.bin'' ''fw1'')
       = [(''/opt/app/data/firmware_cache/fw1.bin'', wrong_header_image 99996)]
   \<and> \<not> verify_firmware_file
          (files (move_to_cache
              (download_file (new_cache [] []) ''/tmp/tmpa1b2c3.bin''
                 (Downloaded (wrong_header_image 99996) ''md5-1'' ''sha256-1''))
              ''/tmp/tmpa1b2c3.bin'' ''fw1''))
          (cache_path ''fw1'')
   \<and> download_and_cache_firmware (new_cache [] []) ''fw1''
         ''http://ota.tasmota.com/tasmota32/release/tasmota32.bin'' ''/tmp/tmpa1b2c3.bin''
         (Downloaded (wrong_header_image 99996) ''md5-1'' ''sha256-1'') 1000
       = (None, new_cache [] [])"
proof -
  let ?s2 = "move_to_cache
              (download_file (new_cache [] []) ''/tmp/tmpa1b2c3.bin''
                 (Downloaded (wrong_header_image 99996) ''md5-1'' ''sha256-1''))
              ''/tmp/tmpa1b2c3.bin'' ''fw1''"
  have f: "files ?s2 = [(''/opt/app/data/firmware_cache/fw1.bin'', wrong_header_image 99996)]"
    using moved_files[of "''/tmp/tmpa1b2c3.bin''" "''fw1''" "new_cache [] []"]
    by (simp add: cache_path_fw new_cache_fields remove_file_def)
  have s2: "?s2 = (new_cache [] [])\<lparr>files := files ?s2\<rparr>"
    by (simp add: move_to_cache_def download_file_def)
  have v: "\<not> verify_firmware_file (files ?s2) (cache_path ''fw1'')"
    unfolding f cache_path_fw
    by (simp add: verify_iff[of _ _ "wrong_header_image 99996"] wrong_header_image_def)
  have g: "get_cached_firmware_path (new_cache [] []) ''fw1'' = (None, new_cache [] [])"
    by (simp add: get_cached_firmware_path_def new_cache_fields)
  have "download_and_cache_firmware (new_cache [] []) ''fw1''
         ''http://ota.tasmota.com/tasmota32/release/tasmota32.bin'' ''/tmp/tmpa1b2c3.bin''
         (Downloaded (wrong_header_image 99996) ''md5-1'' ''sha256-1'') 1000
       = (None, ?s2\<lparr>files := remove_file (files ?s2) (cache_path ''fw1'')\<rparr>)"
    unfolding download_not_cached[OF g] using v by simp
  also have "?s2\<lparr>files := remove_file (files ?s2) (cache_path ''fw1'')\<rparr> = new_cache [] []"
    unfolding f cache_path_fw
    by (subst s2) (simp add: remove_file_def new_cache_def)
  finally show ?thesis
    using f v by (simp add: cache_path_fw in_dir_def cache_dir_def)
qed

text \<open>
  Claim C3, amended. When the firmware is not cached, the downloaded file is moved from
  the temporary path to the cache path and verified there; the verification succeeds
  exactly when the file has at least 100000 bytes and its first byte is \<open>E9\<close> (which
  the ESP32 signature \<open>E9 00 00 00\<close> implies). On success the path is returned, the
  file stays and a row is recorded for the id; on failure nothing is returned, no row is
  recorded and the file is removed from the cache directory.
\<close>

theorem download_moved_then_verified:
  assumes "valid_op (Download i url tmp (Downloaded content m h) now)"
      and "get_cached_firmware_path s i = (None, s0)"
      and "s2 = move_to_cache (download_file s0 tmp (Downloaded content m h)) tmp i"
      and "result = download_and_cache_firmware s i url tmp (Downloaded content m h) now"
  shows "map_of (files s2) (cache_path i) = Some content \<and> map_of (files s2) tmp = None
         \<and> firmware_cache s2 = firmware_cache s0
         \<and> verify_firmware_file (files s2) (cache_path i)
             = (100000 \<le> length content \<and> hd content = 0xE9)
         \<and> (verify_firmware_file (files s2) (cache_path i) \<longrightarrow>
              fst result = Some (cache_path i)
              \<and> files (snd result) = files s2
              \<and> find (\<lambda>e. ce_firmware_id e = i) (firmware_cache (snd result))
                  = Some \<lparr>ce_firmware_id = i, ce_local_path = cache_path i, ce_download_url = url,
                          ce_file_size = length content, ce_md5_hash = m, ce_sha256_hash = h,
                          ce_download_count = 0, ce_last_accessed = now, ce_verified = True\<rparr>)
         \<and> (\<not> verify_firmware_file (files s2) (cache_path i) \<longrightarrow>
              fst result = None
              \<and> firmware_cache (snd result) = firmware_cache s0
              \<and> map_of (files (snd result)) (cache_path i) = None
              \<and> map_of (files (snd result)) tmp = None)"
proof -
  from assms(1) have n: "tmp \<noteq> cache_path i" by (rule valid_download_paths)
  have f: "files s2 = (cache_path i, content) # remove_file (remove_file (files s0) tmp) (cache_path i)"
    unfolding assms(3) using n by (rule moved_files)
  have r: "firmware_cache s2 = firmware_cache s0"
    unfolding assms(3) by (rule moved_rows)
  have c: "map_of (files s2) (cache_path i) = Some content"
    unfolding f by simp
  have t: "map_of (files s2) tmp = None"
    unfolding f using n by (simp add: map_of_remove_file)
  have v: "verify_firmware_file (files s2) (cache_path i)
             = (100000 \<le> length content \<and> hd content = 0xE9)"
    using c by (rule verify_iff)
  note d = download_not_cached[OF assms(2), of url tmp content m h now, folded assms(3) assms(4)]
  have ok: "fst result = Some (cache_path i) \<and> files (snd result) = files s2
              \<and> find (\<lambda>e. ce_firmware_id e = i) (firmware_cache (snd result))
                  = Some \<lparr>ce_firmware_id = i, ce_local_path = cache_path i, ce_download_url = url,
                          ce_file_size = length content, ce_md5_hash = m, ce_sha256_hash = h,
                          ce_download_count = 0, ce_last_accessed = now, ce_verified = True\<rparr>"
    if "verify_firmware_file (files s2) (cache_path i)"
    unfolding d using that
    by (simp add: add_to_cache_db_def update_firmware_local_path_def find_append_new list_ex_iff)
  have bad: "fst result = None \<and> firmware_cache (snd result) = firmware_cache s0
              \<and> map_of (files (snd result)) (cache_path i) = None
              \<and> map_of (files (snd result)) tmp = None"
    if "\<not> verify_firmware_file (files s2) (cache_path i)"
    unfolding d using that r t by (simp add: map_of_remove_file)
  from c t r v ok bad show ?thesis by blast
qed

text \<open>The download of a valid image into the empty cache.\<close>

theorem download_moved_then_verified_witness:
  "valid_op first_download
   \<and> get_cached_firmware_path (new_cache [] []) ''fw1'' = (None, new_cache [] [])
   \<and> verify_firmware_file
        (files (move_to_cache
           (download_file (new_cache [] []) ''/tmp/tmpa1b2c3.bin''
              (Downloaded (esp32_image 99996) ''md5-1'' ''sha256-1''))
           ''/tmp/tmpa1b2c3.bin'' ''fw1''))
        (cache_path ''fw1'')
   \<and> fst (download_and_cache_firmware (new_cache [] []) ''fw1''
           ''http://ota.tasmota.com/tasmota32/release/tasmota32.bin'' ''/tmp/tmpa1b2c3.bin''
           (Downloaded (esp32_image 99996) ''md5-1'' ''sha256-1'') 1000)
       = Some (cache_path ''fw1'')
   \<and> find (\<lambda>e. ce_firmware_id e = ''fw1'')
         (firmware_cache (snd (download_and_cache_firmware (new_cache [] []) ''fw1''
           ''http://ota.tasmota.com/tasmota32/release/tasmota32.bin'' ''/tmp/tmpa1b2c3.bin''
           (Downloaded (esp32_image 99996) ''md5-1'' ''sha256-1'') 1000)))
       = Some \<lparr>ce_firmware_id = ''fw1'', ce_local_path = cache_path ''fw1'',
               ce_download_url = ''http://ota.tasmota.com/tasmota32/release/tasmota32.bin'',
               ce_file_size = length (esp32_image 99996), ce_md5_hash = ''md5-1'',
               ce_sha256_hash = ''sha256-1'', ce_download_count = 0, ce_last_accessed = 1000,
               ce_verified = True\<rparr>"
proof -
  have v: "valid_op (Download ''fw1'' ''http://ota.tasmota.com/tasmota32/release/tasmota32.bin''
       ''/tmp/tmpa1b2c3.bin'' (Downloaded (esp32_image 99996) ''md5-1'' ''sha256-1'') 1000)"
    using valid_first_download by (simp add: first_download_def)
  have g: "get_cached_firmware_path (new_cache [] []) ''fw1'' = (None, new_cache [] [])"
    by (simp add: get_cached_firmware_path_def new_cache_fields)
  note t = download_moved_then_verified[OF v g refl refl]
  note q = t[THEN conjunct2, THEN conjunct2, THEN conjunct2, THEN conjunct1]
  have ok: "verify_firmware_file
        (files (move_to_cache
           (download_file (new_cache [] []) ''/tmp/tmpa1b2c3.bin''
              (Downloaded (esp32_image 99996) ''md5-1'' ''sha256-1''))
           ''/tmp/tmpa1b2c3.bin'' ''fw1''))
        (cache_path ''fw1'')"
    unfolding q using esp32_image_verifies[of 99996] by simp
  note r = t[THEN conjunct2, THEN conjunct2, THEN conjunct2, THEN conjunct2, THEN conjunct1,
             THEN mp, OF ok]
  from r ok g valid_first_download show ?thesis by blast
qed

subsection \<open>A download with a wrong header\<close>

text \<open>
  Claim C4. When the firmware is not cached and the downloaded file has at least 100000
  bytes but its header is neither \<open>E9 00 00 00\<close> nor starts with \<open>E9\<close>, the
  download returns nothing, the rows of the cache and the catalog are as they were, there is
  no verified row for the id, and no file is left at the temporary path or at the cache
  path.
\<close>

theorem wrong_header_download_leaves_nothing:
  assumes "valid_op (Download i url tmp (Downloaded content m h) now)"
      and "get_cached_firmware_path s i = (None, s0)"
      and "100000 \<le> length content"
      and "take 4 content \<noteq> [0xE9, 0x00, 0x00, 0x00]" and "hd content \<noteq> 0xE9"
      and "result = download_and_cache_firmware s i url tmp (Downloaded content m h) now"
  shows "fst result = None
         \<and> firmware_cache (snd result) = firmware_cache s0
         \<and> firmware_db (snd result) = firmware_db s0
         \<and> \<not> list_ex (\<lambda>e. ce_firmware_id e = i \<and> ce_verified e) (firmware_cache (snd result))
         \<and> \<not> path_exists (files (snd result)) tmp
         \<and> \<not> path_exists (files (snd result)) (cache_path i)"
proof -
  let ?s2 = "move_to_cache (download_file s0 tmp (Downloaded content m h)) tmp i"
  from assms(1) have n: "tmp \<noteq> cache_path i" by (rule valid_download_paths)
  have f: "files ?s2 = (cache_path i, content) # remove_file (remove_file (files s0) tmp) (cache_path i)"
    using n by (rule moved_files)
  have "map_of (files ?s2) (cache_path i) = Some content"
    unfolding f by simp
  then have "verify_firmware_file (files ?s2) (cache_path i)
             = (100000 \<le> length content \<and> hd content = 0xE9)"
    by (rule verify_iff)
  with assms(5) have v: "\<not> verify_firmware_file (files ?s2) (cache_path i)" by simp
  have r: "result = (None, ?s2\<lparr>files := remove_file (files ?s2) (cache_path i)\<rparr>)"
    unfolding assms(6) download_not_cached[OF assms(2)] using v by simp
  have "map_of (remove_file (files ?s2) (cache_path i)) tmp = None"
    "map_of (remove_file (files ?s2) (cache_path i)) (cache_path i) = None"
    unfolding f using n by (simp_all add: map_of_remove_file)
  with get_cached_miss_rows[OF assms(2)] show ?thesis
    unfolding r by (simp add: moved_rows path_exists_def)
qed

text \<open>A file of 100000 bytes that starts with \<open>7F 45 4C 46\<close>, into the empty cache.\<close>

theorem wrong_header_download_leaves_nothing_witness:
  "valid_op (Download ''fw2'' ''http://ota.tasmota.com/tasmota/release/tasmota.bin''
       ''/tmp/tmpd4e5f6.bin'' (Downloaded (wrong_header_image 99996) ''md5-2'' ''sha256-2'') 2000)
   \<and> get_cached_firmware_path (new_cache [] []) ''fw2'' = (None, new_cache [] [])
   \<and> 100000 \<le> length (wrong_header_image 99996)
   \<and> take 4 (wrong_header_image 99996) \<noteq> [0xE9, 0x00, 0x00, 0x00]
   \<and> hd (wrong_header_image 99996) \<noteq> 0xE9
   \<and> fst (download_and_cache_firmware (new_cache [] []) ''fw2''
           ''http://ota.tasmota.com/tasmota/release/tasmota.bin'' ''/tmp/tmpd4e5f6.bin''
           (Downloaded (wrong_header_image 99996) ''md5-2'' ''sha256-2'') 2000) = None
   \<and> firmware_cache (snd (download_and_cache_firmware (new_cache [] []) ''fw2''
           ''http://ota.tasmota.com/tasmota/release/tasmota.bin'' ''/tmp/tmpd4e5f6.bin''
           (Downloaded (wrong_header_image 99996) ''md5-2'' ''sha256-2'') 2000)) = []
   \<and> \<not> path_exists (files (snd (download_and_cache_firmware (new_cache [] []) ''fw2''
           ''http://ota.tasmota.com/tasmota/release/tasmota.bin'' ''/tmp/tmpd4e5f6.bin''
           (Downloaded (wrong_header_image 99996) ''md5-2'' ''sha256-2'') 2000))) ''/tmp/tmpd4e5f6.bin''
   \<and> \<not> path_exists (files (snd (download_and_cache_firmware (new_cache [] []) ''fw2''
           ''http://ota.tasmota.com/tasmota/release/tasmota.bin'' ''/tmp/tmpd4e5f6.bin''
           (Downloaded (wrong_header_image 99996) ''md5-2'' ''sha256-2'') 2000)))
          ''/opt/app/data/firmware_cache/fw2.bin''"
proof -
  have v: "valid_op (Download ''fw2'' ''http://ota.tasmota.com/tasmota/release/tasmota.bin''
       ''/tmp/tmpd4e5f6.bin'' (Downloaded (wrong_header_image 99996) ''md5-2'' ''sha256-2'') 2000)"
    by (simp add: valid_firmware_id_def in_dir_def cache_dir_def)
  have g: "get_cached_firmware_path (new_cache [] []) ''fw2'' = (None, new_cache [] [])"
    by (simp add: get_cached_firmware_path_def new_cache_fields)
  have l: "100000 \<le> length (wrong_header_image 99996)"
    "take 4 (wrong_header_image 99996) \<noteq> [0xE9, 0x00, 0x00, 0x00]"
    "hd (wrong_header_image 99996) \<noteq> 0xE9"
    by (simp_all add: wrong_header_image_def)
  note t = wrong_header_download_leaves_nothing[OF v g l refl]
  from t v g l show ?thesis
    unfolding cache_path_fw[symmetric] new_cache_fields by blast
qed

subsection \<open>Review of large uploads\<close>

lemma review_one_unchanged:
  "review_one approved_count (store, n) firmware = (store, n)"
  by (simp add: review_one_def approve_community_firmware_def reject_community_firmware_def Let_def)

lemma review_loop_unchanged:
  "foldl (review_one approved_count) (store, n) rows = (store, n)"
  by (induction rows) (simp_all add: review_one_unchanged)

lemma review_unchanged:
  "review_community_firmware order_by approved_count store = (store, 0)"
  by (simp add: review_community_firmware_def review_loop_unchanged)

text \<open>
  Claim C10 at an input where the code departs from it. An upload of more than
  \<open>8 * 1024 * 1024\<close> bytes that is accepted has at most \<open>10 * 1024 * 1024\<close> bytes
  and is recorded as pending, and the automated review of the recorded row answers with a
  rejection for the reason ``Invalid file size''. The review task then calls
  \<^verbatim>\<open>_reject_community_firmware\<close>, which the scheduler does not define; the exception is
  logged, nothing is written, and the entry is pending after the review as it was before.
\<close>

theorem oversized_upload_stays_pending:
  assumes "fst (upload_firmware ext now store file_data filename metadata author_info) = Uploaded firmware_id"
      and "8 * 1024 * 1024 < length file_data"
      and "store' = snd (upload_firmware ext now store file_data filename metadata author_info)"
  shows "length file_data \<le> 10 * 1024 * 1024
         \<and> (\<exists>row. find (\<lambda>r. cf_id r = firmware_id) (cs_community store') = Some row
               \<and> cf_status row = ''pending''
               \<and> automated_firmware_review (approved_count store') (review_input_of row) =
                   \<lparr>auto_approve = False, auto_reject = True,
                    rejection_reason = Some ''Invalid file size'', confidence_tenths = 0\<rparr>
               \<and> reject_community_firmware store' firmware_id ''automated_review''
                    (Some ''Invalid file size'') = Inl (AttributeError ''_reject_community_firmware'')
               \<and> find (\<lambda>r. cf_id r = firmware_id)
                    (cs_community (fst (review_community_firmware order_by approved_count store')))
                  = Some row)
         \<and> review_community_firmware order_by approved_count store' = (store', 0)"
proof -
  from upload_Uploaded_row[OF assms(1)] obtain row where row:
    "cs_community store' = cs_community store @ [row]"
    "\<not> list_ex (\<lambda>r. cf_id r = firmware_id) (cs_community store)"
    "cf_id row = firmware_id" "cf_status row = ''pending''"
    "cf_file_size row = length file_data" "length file_data \<le> max_file_size"
    unfolding assms(3) by blast
  have f: "find (\<lambda>r. cf_id r = firmware_id) (cs_community store') = Some row"
    using row(1,2,3) by (simp add: find_append_new)
  have "ri_file_size (review_input_of row) = Some (int (length file_data))"
    using row(5) by (simp add: review_input_of_def)
  moreover have "8 * 1024 * 1024 < int (length file_data)" using assms(2) by simp
  ultimately have "automated_firmware_review (approved_count store') (review_input_of row) =
      review_reject ''Invalid file size''"
    by (rule review_rejects_large)
  with f row(4,6) show ?thesis
    by (simp add: review_reject_def review_default_def review_unchanged max_file_size_def
          reject_community_firmware_def)
qed

text \<open>An accepted upload of 9000000 bytes into the empty store, and its review.\<close>

theorem oversized_upload_stays_pending_witness:
  "fst (upload_firmware sample_externals ''2024-01-01T00:00:00'' empty_store (esp32_image 8999996)
          ''fw.bin'' no_metadata anonymous)
     = Uploaded ''community_fw.bin_custom_2024-01-01T00:00:00''
   \<and> (8 * 1024 * 1024 :: nat) < length (esp32_image 8999996)
   \<and> length (esp32_image 8999996) \<le> 10 * 1024 * 1024
   \<and> (\<exists>row. find (\<lambda>r. cf_id r = ''community_fw.bin_custom_2024-01-01T00:00:00'')
                (cs_community (fst (review_community_firmware (\<lambda>rows. rows) (\<lambda>store author. 0)
                   (snd (upload_firmware sample_externals ''2024-01-01T00:00:00'' empty_store
                          (esp32_image 8999996) ''fw.bin'' no_metadata anonymous)))))
              = Some row
            \<and> cf_status row = ''pending''
            \<and> auto_reject (automated_firmware_review (\<lambda>author. 0) (review_input_of row)))"
proof -
  have l: "(8 * 1024 * 1024 :: nat) < length (esp32_image 8999996)"
    by (simp add: length_esp32_image)
  note t = oversized_upload_stays_pending[OF upload_sample_fst l refl,
             of "\<lambda>store author. 0" "\<lambda>rows. rows"]
  from t obtain row where
    "find (\<lambda>r. cf_id r = ''community_fw.bin_custom_2024-01-01T00:00:00'')
                (cs_community (fst (review_community_firmware (\<lambda>rows. rows) (\<lambda>store author. 0)
                   (snd (upload_firmware sample_externals ''2024-01-01T00:00:00'' empty_store
                          (esp32_image 8999996) ''fw.bin'' no_metadata anonymous)))))
              = Some row" "cf_status row = ''pending''"
    "automated_firmware_review (\<lambda>author. 0) (review_input_of row) =
                   \<lparr>auto_approve = False, auto_reject = True,
                    rejection_reason = Some ''Invalid file size'', confidence_tenths = 0\<rparr>"
    by blast
  then have "\<exists>row. find (\<lambda>r. cf_id r = ''community_fw.bin_custom_2024-01-01T00:00:00'')
                (cs_community (fst (review_community_firmware (\<lambda>rows. rows) (\<lambda>store author. 0)
                   (snd (upload_firmware sample_externals ''2024-01-01T00:00:00'' empty_store
                          (esp32_image 8999996) ''fw.bin'' no_metadata anonymous)))))
              = Some row
            \<and> cf_status row = ''pending''
            \<and> auto_reject (automated_firmware_review (\<lambda>author. 0) (review_input_of row))"
    by auto
  with upload_sample_fst l t show ?thesis
    by blast
qed

end
